theory Spec2Isabelle
  imports Main "HOL-Library.Word"
begin

unbundle bit_operations_syntax

section \<open>The UART client of ble\_uart\_c.c\<close>

text \<open>
  A shallow embedding of \<^verbatim>\<open>ble_uart_c.c\<close>: the transmit ring buffer
  (\<^verbatim>\<open>m_tx_buffer\<close>, \<^verbatim>\<open>m_tx_insert_index\<close>, \<^verbatim>\<open>m_tx_index\<close>), the function that
  hands its oldest entry to the SoftDevice (\<^verbatim>\<open>tx_buffer_process\<close>), the two
  functions that fill it (\<^verbatim>\<open>cccd_configure\<close>, \<^verbatim>\<open>ble_uart_c_write_string\<close>), the event
  dispatcher (\<^verbatim>\<open>ble_uart_c_on_ble_evt\<close>) with its handlers, and \<^verbatim>\<open>ble_uart_c_init\<close>.
  The discovery handler \<^verbatim>\<open>ble_uart_c_on_db_disc_evt\<close>, which fills the handles of the
  client structure, is not part of it: the structure is taken as it is given.

  The C integers are words of their width. The static variables of the file are the
  fields of one record that every function takes and returns. What the code does beyond
  its state is made visible in two traces kept in that record: the calls it makes to the
  SoftDevice, and the calls it makes to the application's event handler. A pointer
  argument is an option, \<open>None\<close> for \<^verbatim>\<open>NULL\<close>. Behaviour the C standard leaves undefined
  is a value of its own, \<open>Inl\<close> of a fault.
\<close>

subsection \<open>Constants of the headers\<close>

text \<open>
  Modelled from the spec: the SDK headers \<^verbatim>\<open>nrf_error.h\<close>, \<^verbatim>\<open>ble.h\<close>, \<^verbatim>\<open>ble_gatt.h\<close>
  and \<^verbatim>\<open>app_util.h\<close> are not among the sources. The spec names a success status, an
  invalid-state and a null-argument error, an invalid sentinel for the connection handle,
  a 16-bit notification flag whose bytes are 0x01 (low) and 0x00 (high), and the
  request-with-response write mode. The numbers below are those of the S120 headers; the
  theorems use the status codes by name and need only that they differ.
\<close>

definition NRF_SUCCESS :: "32 word" where
  "NRF_SUCCESS = 0"

definition NRF_ERROR_INVALID_STATE :: "32 word" where
  "NRF_ERROR_INVALID_STATE = 8"

definition NRF_ERROR_NULL :: "32 word" where
  "NRF_ERROR_NULL = 14"

definition BLE_CONN_HANDLE_INVALID :: "16 word" where
  "BLE_CONN_HANDLE_INVALID = 0xFFFF"

definition BLE_GATT_HANDLE_INVALID :: "16 word" where
  "BLE_GATT_HANDLE_INVALID = 0x0000"

definition BLE_GATT_HVX_NOTIFICATION :: "16 word" where
  "BLE_GATT_HVX_NOTIFICATION = 0x01"

definition BLE_GATT_OP_WRITE_REQ :: "8 word" where
  "BLE_GATT_OP_WRITE_REQ = 0x01"

text \<open>
  Modelled from the spec: \<^verbatim>\<open>BLE_UUID_NUS_SERVICE\<close>, the 16-bit identifier of the target
  service, is defined in \<^verbatim>\<open>ble_uart_c.h\<close>, which is not among the sources. 0x0001 is the
  identifier of the Nordic UART service; no theorem depends on the number.
\<close>

definition BLE_UUID_NUS_SERVICE :: "16 word" where
  "BLE_UUID_NUS_SERVICE = 0x0001"

text \<open>
  Modelled from the spec: the macros \<^verbatim>\<open>LSB_16\<close> and \<^verbatim>\<open>MSB_16\<close> of \<^verbatim>\<open>app_util.h\<close>
  (not among the sources), the low byte and the high byte of a 16-bit value.
\<close>

definition LSB_16 :: "16 word \<Rightarrow> 8 word" where
  "LSB_16 a = ucast (a AND 0x00FF)"

definition MSB_16 :: "16 word \<Rightarrow> 8 word" where
  "MSB_16 a = ucast (drop_bit 8 (a AND 0xFF00))"

text \<open>The constants the file defines itself.\<close>

definition TX_BUFFER_MASK :: "32 word" where
  "TX_BUFFER_MASK = 0x07"

definition TX_BUFFER_SIZE :: nat where
  "TX_BUFFER_SIZE = unat (TX_BUFFER_MASK + 1)"

definition WRITE_MESSAGE_LENGTH :: nat where
  "WRITE_MESSAGE_LENGTH = 20"

subsection \<open>Data\<close>

datatype tx_request_t = READ_REQ | WRITE_REQ

text \<open>
  \<^verbatim>\<open>ble_gattc_write_params_t\<close> (declared in \<^verbatim>\<open>ble_gattc.h\<close>), with the fields the file
  assigns. \<^verbatim>\<open>p_value\<close> is a pointer: the file only ever stores in it the address of the
  \<^verbatim>\<open>gattc_value\<close> array of a slot of \<^verbatim>\<open>m_tx_buffer\<close>, so a pointer is the index of that
  slot, and \<open>None\<close> is the null pointer of a slot never written.
\<close>

record ble_gattc_write_params_t =
  write_op :: "8 word"
  handle :: "16 word"
  offset :: "16 word"
  len :: "16 word"
  p_value :: "nat option"

record write_params_t =
  gattc_value :: "8 word list"
  gattc_params :: ble_gattc_write_params_t

text \<open>
  The C union \<^verbatim>\<open>req\<close> overlays \<^verbatim>\<open>read_handle\<close> with the first bytes of
  \<^verbatim>\<open>write_req\<close>. The functions of this file write the \<^verbatim>\<open>write_req\<close> member only, and
  set \<^verbatim>\<open>type\<close> to \<^verbatim>\<open>WRITE_REQ\<close> whenever they do, so \<^verbatim>\<open>read_handle\<close> is read only from
  a slot that no enqueue has written. The record keeps the two members side by side.
\<close>

record tx_message_t =
  conn_handle :: "16 word"
  type :: tx_request_t
  read_handle :: "16 word"
  write_req :: write_params_t

text \<open>
  \<^verbatim>\<open>ble_uart_c_t\<close>, the client structure the application owns (declared in
  \<^verbatim>\<open>ble_uart_c.h\<close>). Its connection handle has the prefix \<open>c_\<close> here, since the
  message has a field of the same name. \<^verbatim>\<open>evt_handler\<close> is a function pointer: the
  address of the application's handler.
\<close>

record ble_uart_c_t =
  evt_handler :: nat
  c_conn_handle :: "16 word"
  RX_cccd_handle :: "16 word"
  RX_handle :: "16 word"
  TX_handle :: "16 word"

text \<open>A call the file makes to the SoftDevice, as the SoftDevice sees it: for a write,
  the parameter block and the bytes its \<^verbatim>\<open>p_value\<close> points to at the time of the call.\<close>

datatype sd_call =
    Sd_ble_gattc_read "16 word" "16 word" "16 word"
  | Sd_ble_gattc_write "16 word" ble_gattc_write_params_t "8 word list"

text \<open>
  Modelled from the spec: \<^verbatim>\<open>ble_uart_c_evt_t\<close> is declared in \<^verbatim>\<open>ble_uart_c.h\<close>, which is
  not among the sources. The event record handed to the application is either the
  discovery-complete event or the inbound-data event with the payload and its length.
\<close>

datatype ble_uart_c_evt_t =
    BLE_UART_C_EVT_DISCOVERY_COMPLETE
  | BLE_UART_C_EVT_RX_DATA_NOTIFICATION "8 word list" "16 word"

text \<open>The part of \<^verbatim>\<open>ble_evt_t\<close> the dispatcher reads: the event id, and for each id
  the member of the union the handler reads.\<close>

record hvx_t =
  hvx_handle :: "16 word"
  hvx_len :: "16 word"
  hvx_data :: "8 word list"

datatype ble_evt_t =
    BLE_GAP_EVT_CONNECTED "16 word"
  | BLE_GATTC_EVT_HVX hvx_t
  | BLE_GATTC_EVT_WRITE_RSP
  | BLE_EVT_OTHER "16 word"

datatype fault = NullPointer | OutOfBounds

text \<open>\<^verbatim>\<open>ble_uuid_t\<close> (declared in \<^verbatim>\<open>ble_types.h\<close>) and \<^verbatim>\<open>ble_uart_c_init_t\<close> (declared
  in \<^verbatim>\<open>ble_uart_c.h\<close>), with the fields the file reads and writes.\<close>

record ble_uuid_t =
  uuid :: "16 word"
  uuid_type :: "8 word"

record ble_uart_c_init_t =
  init_evt_handler :: nat

text \<open>
  The static variables of the file, and the two traces: \<open>sd_calls\<close> lists every call to
  \<^verbatim>\<open>sd_ble_gattc_read\<close> and \<^verbatim>\<open>sd_ble_gattc_write\<close> with the status it returned, oldest
  first; \<open>app_calls\<close> lists every call of the application's handler with the event it
  was given.
\<close>

record state =
  m_tx_buffer :: "tx_message_t list"
  m_tx_insert_index :: "32 word"
  m_tx_index :: "32 word"
  uart_uuid :: ble_uuid_t
  sd_calls :: "(sd_call \<times> 32 word) list"
  app_calls :: "(nat \<times> ble_uart_c_evt_t) list"

text \<open>The zero-initialised statics at program start.\<close>

definition zero_message :: tx_message_t where
  "zero_message =
     \<lparr>conn_handle = 0, type = READ_REQ, read_handle = 0,
      write_req = \<lparr>gattc_value = replicate WRITE_MESSAGE_LENGTH 0,
                   gattc_params = \<lparr>write_op = 0, handle = 0, offset = 0, len = 0,
                                   p_value = None\<rparr>\<rparr>\<rparr>"

definition initial_state :: state where
  "initial_state =
     \<lparr>m_tx_buffer = replicate TX_BUFFER_SIZE zero_message,
      m_tx_insert_index = 0, m_tx_index = 0, uart_uuid = \<lparr>uuid = 0, uuid_type = 0\<rparr>,
      sd_calls = [], app_calls = []\<rparr>"

subsection \<open>tx\_buffer\_process\<close>

text \<open>The bytes a \<^verbatim>\<open>p_value\<close> pointer with a length designates in the buffer.\<close>

definition value_at :: "tx_message_t list \<Rightarrow> nat option \<Rightarrow> 16 word \<Rightarrow> 8 word list" where
  "value_at buf p n =
     (case p of None \<Rightarrow> [] | Some i \<Rightarrow> take (unat n) (gattc_value (write_req (buf ! i))))"

text \<open>The call \<^verbatim>\<open>tx_buffer_process\<close> makes for the entry at \<^verbatim>\<open>m_tx_index\<close>.\<close>

definition pending_call :: "state \<Rightarrow> sd_call" where
  "pending_call s =
     (let m = m_tx_buffer s ! unat (m_tx_index s) in
      if type m = READ_REQ
      then Sd_ble_gattc_read (conn_handle m) (read_handle m) 0
      else Sd_ble_gattc_write (conn_handle m) (gattc_params (write_req m))
             (value_at (m_tx_buffer s) (p_value (gattc_params (write_req m)))
                (len (gattc_params (write_req m)))))"

text \<open>
  \<^verbatim>\<open>tx_buffer_process\<close>. The status the SoftDevice returns is an input of the model:
  \<open>err_code\<close> is what \<^verbatim>\<open>sd_ble_gattc_read\<close> or \<^verbatim>\<open>sd_ble_gattc_write\<close> answers to the call
  this run of the function makes, if it makes one.
\<close>

definition tx_buffer_process :: "32 word \<Rightarrow> state \<Rightarrow> state" where
  "tx_buffer_process err_code s =
     (if m_tx_index s \<noteq> m_tx_insert_index s
      then
        let s1 = s\<lparr>sd_calls := sd_calls s @ [(pending_call s, err_code)]\<rparr> in
        if err_code = NRF_SUCCESS
        then s1\<lparr>m_tx_index := (m_tx_index s1 + 1) AND TX_BUFFER_MASK\<rparr>
        else s1
      else s)"

definition on_write_rsp :: "ble_uart_c_t \<Rightarrow> 32 word \<Rightarrow> state \<Rightarrow> state" where
  "on_write_rsp p_ble_uart_c err_code s = tx_buffer_process err_code s"

subsection \<open>Events\<close>

text \<open>\<^verbatim>\<open>on_hvx\<close>: the \<^verbatim>\<open>memcpy\<close> takes \<^verbatim>\<open>hvx.len\<close> bytes of \<^verbatim>\<open>hvx.data\<close>.\<close>

definition on_hvx :: "ble_uart_c_t \<Rightarrow> hvx_t \<Rightarrow> state \<Rightarrow> state" where
  "on_hvx p_ble_uart_c hvx s =
     (if hvx_handle hvx = RX_handle p_ble_uart_c
      then s\<lparr>app_calls := app_calls s @
                [(evt_handler p_ble_uart_c,
                  BLE_UART_C_EVT_RX_DATA_NOTIFICATION
                    (take (unat (hvx_len hvx)) (hvx_data hvx)) (hvx_len hvx))]\<rparr>
      else s)"

text \<open>
  \<^verbatim>\<open>ble_uart_c_on_ble_evt\<close>. Both pointers may be null; the function returns the client
  structure as it leaves it (it writes the connection handle on a connected event).
\<close>

definition ble_uart_c_on_ble_evt ::
  "ble_uart_c_t option \<Rightarrow> ble_evt_t option \<Rightarrow> 32 word \<Rightarrow> state
     \<Rightarrow> ble_uart_c_t option \<times> state" where
  "ble_uart_c_on_ble_evt p_ble_uart_c p_ble_evt err_code s =
     (case (p_ble_uart_c, p_ble_evt) of
        (Some c, Some e) \<Rightarrow>
          (case e of
             BLE_GAP_EVT_CONNECTED h \<Rightarrow> (Some (c\<lparr>c_conn_handle := h\<rparr>), s)
           | BLE_GATTC_EVT_HVX hvx \<Rightarrow> (Some c, on_hvx c hvx s)
           | BLE_GATTC_EVT_WRITE_RSP \<Rightarrow> (Some c, on_write_rsp c err_code s)
           | BLE_EVT_OTHER i \<Rightarrow> (Some c, s))
      | _ \<Rightarrow> (p_ble_uart_c, s))"

subsection \<open>Enqueueing\<close>

text \<open>\<^verbatim>\<open>memcpy(dst, src, n)\<close> on two arrays: defined when both hold \<open>n\<close> bytes.\<close>

definition memcpy :: "8 word list \<Rightarrow> 8 word list \<Rightarrow> nat \<Rightarrow> fault + 8 word list" where
  "memcpy dst src n =
     (if n \<le> length dst \<and> n \<le> length src then Inr (take n src @ drop n dst)
      else Inl OutOfBounds)"

text \<open>
  \<^verbatim>\<open>cccd_configure\<close>. \<open>p_msg\<close> is the slot at the insert index before the increment; the
  assignments through it are the field updates of that slot, in the order of the source.
\<close>

definition cccd_configure ::
  "16 word \<Rightarrow> 16 word \<Rightarrow> bool \<Rightarrow> 32 word \<Rightarrow> state \<Rightarrow> 32 word \<times> state" where
  "cccd_configure conn handle_cccd enable err_code s =
     (let cccd_val = (if enable then BLE_GATT_HVX_NOTIFICATION else 0);
          i = unat (m_tx_insert_index s);
          s1 = s\<lparr>m_tx_insert_index := (m_tx_insert_index s + 1) AND TX_BUFFER_MASK\<rparr>;
          m = m_tx_buffer s1 ! i;
          w = write_req m;
          params = (gattc_params w)
                     \<lparr>handle := handle_cccd, len := 2, p_value := Some i, offset := 0,
                      write_op := BLE_GATT_OP_WRITE_REQ\<rparr>;
          val = (gattc_value w)[0 := LSB_16 cccd_val, 1 := MSB_16 cccd_val];
          m' = m\<lparr>write_req := \<lparr>gattc_value = val, gattc_params = params\<rparr>,
                 conn_handle := conn, type := WRITE_REQ\<rparr>;
          s2 = s1\<lparr>m_tx_buffer := (m_tx_buffer s1)[i := m']\<rparr>
      in (NRF_SUCCESS, tx_buffer_process err_code s2))"

text \<open>
  \<^verbatim>\<open>ble_uart_c_write_string\<close>. \<open>p_str\<close> is the array the caller's pointer designates. The
  function reads \<^verbatim>\<open>p_ble_uart_c->conn_handle\<close> first, with no test of the pointer: on a
  null pointer that read is undefined. The \<^verbatim>\<open>memcpy\<close> into the 20-byte \<^verbatim>\<open>gattc_value\<close>
  is undefined when it leaves the array.
\<close>

definition ble_uart_c_write_string ::
  "ble_uart_c_t option \<Rightarrow> 8 word list \<Rightarrow> 16 word \<Rightarrow> 32 word \<Rightarrow> state
     \<Rightarrow> fault + (32 word \<times> state)" where
  "ble_uart_c_write_string p_ble_uart_c p_str p_str_len err_code s =
     (case p_ble_uart_c of
        None \<Rightarrow> Inl NullPointer
      | Some c \<Rightarrow>
          if c_conn_handle c = BLE_CONN_HANDLE_INVALID
          then Inr (NRF_ERROR_INVALID_STATE, s)
          else
            let i = unat (m_tx_insert_index s);
                s1 = s\<lparr>m_tx_insert_index := (m_tx_insert_index s + 1) AND TX_BUFFER_MASK\<rparr>;
                m = m_tx_buffer s1 ! i;
                w = write_req m;
                params = (gattc_params w)
                           \<lparr>handle := TX_handle c, len := p_str_len, p_value := Some i,
                            offset := 0, write_op := BLE_GATT_OP_WRITE_REQ\<rparr>
            in (case memcpy (gattc_value w) p_str (unat p_str_len) of
                  Inl f \<Rightarrow> Inl f
                | Inr val \<Rightarrow>
                    let m' = m\<lparr>write_req := \<lparr>gattc_value = val, gattc_params = params\<rparr>,
                               conn_handle := c_conn_handle c, type := WRITE_REQ\<rparr>;
                        s2 = s1\<lparr>m_tx_buffer := (m_tx_buffer s1)[i := m']\<rparr>
                    in Inr (NRF_SUCCESS, tx_buffer_process err_code s2)))"

definition ble_uart_c_rx_notif_enable ::
  "ble_uart_c_t option \<Rightarrow> 32 word \<Rightarrow> state \<Rightarrow> 32 word \<times> state" where
  "ble_uart_c_rx_notif_enable p_ble_uart_c err_code s =
     (case p_ble_uart_c of
        None \<Rightarrow> (NRF_ERROR_NULL, s)
      | Some c \<Rightarrow> cccd_configure (c_conn_handle c) (RX_cccd_handle c) True err_code s)"

subsection \<open>Initialisation\<close>

text \<open>
  \<^verbatim>\<open>ble_uart_c_init\<close>. The two calls it makes outside the file are inputs of the model:
  \<open>vs_add\<close> is the status \<^verbatim>\<open>sd_ble_uuid_vs_add\<close> returns with the value it leaves in
  \<^verbatim>\<open>uart_uuid.type\<close>, and \<open>registered\<close> is the status of
  \<^verbatim>\<open>ble_db_discovery_evt_register\<close>. The static pointer \<^verbatim>\<open>mp_ble_uart_c\<close> is used here
  only, to write the structure the function was just given.
\<close>

definition ble_uart_c_init ::
  "ble_uart_c_t option \<Rightarrow> ble_uart_c_init_t option \<Rightarrow> 32 word \<times> 8 word \<Rightarrow> 32 word
     \<Rightarrow> state \<Rightarrow> 32 word \<times> ble_uart_c_t option \<times> state" where
  "ble_uart_c_init p_ble_uart_c p_ble_uart_c_init vs_add registered s =
     (case (p_ble_uart_c, p_ble_uart_c_init) of
        (Some c, Some ini) \<Rightarrow>
          let err_code = fst vs_add;
              s1 = s\<lparr>uart_uuid := (uart_uuid s)\<lparr>uuid_type := snd vs_add\<rparr>\<rparr>
          in if err_code \<noteq> NRF_SUCCESS then (err_code, Some c, s1)
             else
               (registered,
                Some (c\<lparr>evt_handler := init_evt_handler ini,
                         c_conn_handle := BLE_CONN_HANDLE_INVALID,
                         RX_cccd_handle := BLE_GATT_HANDLE_INVALID\<rparr>),
                s1\<lparr>uart_uuid := (uart_uuid s1)\<lparr>uuid := BLE_UUID_NUS_SERVICE\<rparr>\<rparr>)
      | _ \<Rightarrow> (NRF_ERROR_NULL, p_ble_uart_c, s))"

subsection \<open>Runs of the module\<close>

text \<open>
  The application and the SoftDevice drive the module through its entry points, one call
  after the other (the module runs on one thread, each call to completion). A step is
  one call on the application's client structure, paired with the status the SoftDevice
  gives to the submission that call makes, if it makes one. A run stops at the first
  fault.
\<close>

datatype api_call =
    Write_string "8 word list" "16 word"
  | Rx_notif_enable
  | On_ble_evt ble_evt_t

definition api_step ::
  "ble_uart_c_t \<Rightarrow> api_call \<times> 32 word \<Rightarrow> state \<Rightarrow> fault + (ble_uart_c_t \<times> state)" where
  "api_step c a s =
     (case fst a of
        Write_string p_str p_str_len \<Rightarrow>
          (case ble_uart_c_write_string (Some c) p_str p_str_len (snd a) s of
             Inl f \<Rightarrow> Inl f
           | Inr r \<Rightarrow> Inr (c, snd r))
      | Rx_notif_enable \<Rightarrow> Inr (c, snd (ble_uart_c_rx_notif_enable (Some c) (snd a) s))
      | On_ble_evt e \<Rightarrow>
          (case ble_uart_c_on_ble_evt (Some c) (Some e) (snd a) s of
             (p, s') \<Rightarrow> Inr (case p of Some c' \<Rightarrow> c' | None \<Rightarrow> c, s')))"

fun run ::
  "ble_uart_c_t \<Rightarrow> (api_call \<times> 32 word) list \<Rightarrow> state \<Rightarrow> fault + (ble_uart_c_t \<times> state)" where
  "run c [] s = Inr (c, s)"
| "run c (a # as) s =
     (case api_step c a s of Inl f \<Rightarrow> Inl f | Inr r \<Rightarrow> run (fst r) as (snd r))"

text \<open>The calls that put an entry in the buffer when a connection handle is set: a
  write of a string that fits the slot, and the enabling of notifications.\<close>

fun enqueues :: "api_call \<Rightarrow> bool" where
  "enqueues (Write_string p_str p_str_len) =
     (unat p_str_len \<le> WRITE_MESSAGE_LENGTH \<and> unat p_str_len \<le> length p_str)"
| "enqueues Rx_notif_enable = True"
| "enqueues (On_ble_evt e) = False"

text \<open>The number of submissions the SoftDevice has accepted so far.\<close>

definition accepted :: "state \<Rightarrow> nat" where
  "accepted s = length (filter (\<lambda>x. snd x = NRF_SUCCESS) (sd_calls s))"

text \<open>
  What an observer between the module and the SoftDevice sees of a run, in order: the
  write-response events delivered to the module, and the requests the module passes to
  \<^verbatim>\<open>sd_ble_gattc_read\<close> or \<^verbatim>\<open>sd_ble_gattc_write\<close> with the status returned. A
  write-response event comes before the submission its handling makes.
\<close>

datatype obs = Write_response | Submitted sd_call "32 word"

definition step_obs :: "api_call \<Rightarrow> state \<Rightarrow> state \<Rightarrow> obs list" where
  "step_obs a s s' =
     (if a = On_ble_evt BLE_GATTC_EVT_WRITE_RSP then [Write_response] else []) @
     map (\<lambda>x. Submitted (fst x) (snd x)) (drop (length (sd_calls s)) (sd_calls s'))"

fun run_obs :: "ble_uart_c_t \<Rightarrow> (api_call \<times> 32 word) list \<Rightarrow> state \<Rightarrow> obs list" where
  "run_obs c [] s = []"
| "run_obs c (a # as) s =
     (case api_step c a s of
        Inl f \<Rightarrow> []
      | Inr r \<Rightarrow> step_obs (fst a) s (snd r) @ run_obs (fst r) as (snd r))"

text \<open>
  The rule of one request in flight, as a check of such a sequence: a request accepted
  by the SoftDevice occupies the slot until a write-response event; a rejected one leaves
  it free; no request is passed to the SoftDevice while the slot is occupied. \<open>busy\<close>
  says whether the slot is occupied at the start.
\<close>

fun one_in_flight :: "bool \<Rightarrow> obs list \<Rightarrow> bool" where
  "one_in_flight busy [] = True"
| "one_in_flight busy (Write_response # t) = one_in_flight False t"
| "one_in_flight busy (Submitted call e # t) =
     (\<not> busy \<and> one_in_flight (e = NRF_SUCCESS) t)"

text \<open>
  The state an enqueue has reached when it calls \<^verbatim>\<open>tx_buffer_process\<close>: the message
  \<open>m\<close> is in the slot at the insert index, and that index has been advanced.
\<close>

definition stored :: "tx_message_t \<Rightarrow> state \<Rightarrow> state" where
  "stored m s =
     s\<lparr>m_tx_insert_index := (m_tx_insert_index s + 1) AND TX_BUFFER_MASK,
       m_tx_buffer := (m_tx_buffer s)[unat (m_tx_insert_index s) := m]\<rparr>"

text \<open>The submissions of a state's trace, reduced to the bytes written and the status
  returned.\<close>

definition sd_value :: "sd_call \<Rightarrow> 8 word list" where
  "sd_value call =
     (case call of Sd_ble_gattc_read h a off \<Rightarrow> [] | Sd_ble_gattc_write h params v \<Rightarrow> v)"

definition submissions :: "state \<Rightarrow> (8 word list \<times> 32 word) list" where
  "submissions s = map (\<lambda>x. (sd_value (fst x), snd x)) (sd_calls s)"

subsection \<open>Sample inputs\<close>

text \<open>A client structure after discovery on connection 0, one that has no connection,
  a status other than success, and a notification.\<close>

definition sample_client :: ble_uart_c_t where
  "sample_client =
     \<lparr>evt_handler = 1, c_conn_handle = 0, RX_cccd_handle = 0x10, RX_handle = 0x0F,
      TX_handle = 0x0D\<rparr>"

definition unconnected_client :: ble_uart_c_t where
  "unconnected_client =
     \<lparr>evt_handler = 1, c_conn_handle = BLE_CONN_HANDLE_INVALID,
      RX_cccd_handle = BLE_GATT_HANDLE_INVALID, RX_handle = 0, TX_handle = 0\<rparr>"

definition NRF_ERROR_BUSY :: "32 word" where
  "NRF_ERROR_BUSY = 17"

definition sample_hvx :: "16 word \<Rightarrow> hvx_t" where
  "sample_hvx h = \<lparr>hvx_handle = h, hvx_len = 3, hvx_data = [0x68, 0x65, 0x79]\<rparr>"

definition long_string :: "8 word list" where
  "long_string = replicate 21 0x2E"

text \<open>Runs used as examples. The payload of each write is one byte that names it.\<close>

definition two_writes :: "(api_call \<times> 32 word) list" where
  "two_writes =
     [(Write_string [0x41] 1, NRF_SUCCESS), (Write_string [0x42] 1, NRF_ERROR_BUSY)]"

definition two_accepted_writes :: "(api_call \<times> 32 word) list" where
  "two_accepted_writes =
     [(Write_string [0x41] 1, NRF_SUCCESS), (Write_string [0x42] 1, NRF_SUCCESS)]"

definition abc_writes :: "(api_call \<times> 32 word) list" where
  "abc_writes =
     [(Write_string [0x41] 1, NRF_SUCCESS), (Write_string [0x42] 1, NRF_ERROR_BUSY),
      (Write_string [0x43] 1, NRF_ERROR_BUSY)]"

definition three_responses :: "(api_call \<times> 32 word) list" where
  "three_responses = replicate 3 (On_ble_evt BLE_GATTC_EVT_WRITE_RSP, NRF_SUCCESS)"

definition seven_rejected :: "(api_call \<times> 32 word) list" where
  "seven_rejected = map (\<lambda>k. (Write_string [k] 1, NRF_ERROR_BUSY)) [1, 2, 3, 4, 5, 6, 7]"

text \<open>What a run leaves: the submissions made, the insert index and the dispatch index.\<close>

definition outcome ::
  "fault + (ble_uart_c_t \<times> state)
     \<Rightarrow> ((8 word list \<times> 32 word) list \<times> 32 word \<times> 32 word) option" where
  "outcome r =
     (case r of
        Inl f \<Rightarrow> None
      | Inr x \<Rightarrow> Some (submissions (snd x), m_tx_insert_index (snd x), m_tx_index (snd x)))"

subsection \<open>The invariant of the indices\<close>

text \<open>Both indices stay below \<^verbatim>\<open>TX_BUFFER_SIZE\<close>, the number of slots, and every slot
  holds its 20 bytes: the states in which every array access of the file is in range.\<close>

definition tx_inv :: "state \<Rightarrow> bool" where
  "tx_inv s \<longleftrightarrow>
     length (m_tx_buffer s) = TX_BUFFER_SIZE \<and>
     unat (m_tx_insert_index s) < TX_BUFFER_SIZE \<and>
     unat (m_tx_index s) < TX_BUFFER_SIZE \<and>
     list_all (\<lambda>m. length (gattc_value (write_req m)) = WRITE_MESSAGE_LENGTH) (m_tx_buffer s)"

text \<open>\<open>ahead s d\<close>: the insert index is \<open>d\<close> slots ahead of the dispatch index.\<close>

definition ahead :: "state \<Rightarrow> nat \<Rightarrow> bool" where
  "ahead s d \<longleftrightarrow> d < 8 \<and> unat (m_tx_insert_index s) = (unat (m_tx_index s) + d) mod 8"

section \<open>Properties\<close>

subsection \<open>Auxiliary facts\<close>

lemma TX_BUFFER_SIZE_eq: "TX_BUFFER_SIZE = 8"
  by (simp add: TX_BUFFER_SIZE_def TX_BUFFER_MASK_def)

lemma unat_and7: "unat ((w :: 32 word) AND 7) = unat w mod 8"
proof -
  have "(w AND 7) = take_bit 3 w"
    by (simp add: take_bit_eq_mask mask_eq_exp_minus_1)
  then show ?thesis
    by (simp add: unsigned_take_bit_eq take_bit_eq_mod unat_mod)
qed

text \<open>The increment of an index, \<^verbatim>\<open>i++; i &= TX_BUFFER_MASK\<close>, is the successor
  modulo 8.\<close>

lemma unat_inc_mask: "unat ((w + 1) AND TX_BUFFER_MASK) = (unat w + 1) mod 8"
proof -
  have "unat ((w + 1) AND TX_BUFFER_MASK) = unat (w + 1) mod 8"
    by (simp add: TX_BUFFER_MASK_def unat_and7)
  also have "\<dots> = ((unat w + 1) mod 2 ^ 32) mod 8"
    by (simp add: unat_word_ariths)
  also have "\<dots> = (unat w + 1) mod 8"
    by (simp add: mod_mod_cancel)
  finally show ?thesis .
qed

lemma inc_mask_neq:
  assumes "unat w < 8"
  shows "(w + 1) AND TX_BUFFER_MASK \<noteq> w"
proof
  assume "(w + 1) AND TX_BUFFER_MASK = w"
  then have "unat ((w + 1) AND TX_BUFFER_MASK) = unat w" by simp
  then have "(unat w + 1) mod 8 = unat w" by (simp add: unat_inc_mask)
  with assms show False by presburger
qed

lemma tx_buffer_process_buffer [simp]:
  "m_tx_buffer (tx_buffer_process e s) = m_tx_buffer s"
  by (simp add: tx_buffer_process_def Let_def)

lemma tx_buffer_process_insert [simp]:
  "m_tx_insert_index (tx_buffer_process e s) = m_tx_insert_index s"
  by (simp add: tx_buffer_process_def Let_def)

lemma LSB_MSB_notification:
  "LSB_16 BLE_GATT_HVX_NOTIFICATION = 0x01" "MSB_16 BLE_GATT_HVX_NOTIFICATION = 0x00"
  by (simp_all add: LSB_16_def MSB_16_def BLE_GATT_HVX_NOTIFICATION_def)

text \<open>The initial buffer, written out.\<close>

lemma zero_value:
  "replicate WRITE_MESSAGE_LENGTH (0 :: 8 word)
     = [0, 0, 0, 0, 0, 0, 0, 0, 0, 0, 0, 0, 0, 0, 0, 0, 0, 0, 0, 0]"
  by (simp add: WRITE_MESSAGE_LENGTH_def numeral_eq_Suc)

lemma eight_slots: "replicate TX_BUFFER_SIZE x = [x, x, x, x, x, x, x, x]"
  by (simp add: TX_BUFFER_SIZE_eq numeral_eq_Suc)

lemma tx_inv_initial: "tx_inv initial_state"
  by (simp add: tx_inv_def initial_state_def TX_BUFFER_SIZE_eq zero_message_def
      list_all_iff)

lemma initial_indices:
  "m_tx_insert_index initial_state = 0" "m_tx_index initial_state = 0"
  by (simp_all add: initial_state_def)

lemma tx_inv_slot:
  "tx_inv s \<Longrightarrow> unat (m_tx_insert_index s) < length (m_tx_buffer s)"
  by (simp add: tx_inv_def)

lemma tx_inv_value_length:
  "tx_inv s \<Longrightarrow> i < TX_BUFFER_SIZE \<Longrightarrow>
     length (gattc_value (write_req (m_tx_buffer s ! i))) = WRITE_MESSAGE_LENGTH"
  by (simp add: tx_inv_def list_all_length)

subsection \<open>Calls without a connection\<close>

text \<open>
  C4. When the connection handle of the client structure is the invalid sentinel,
  \<^verbatim>\<open>ble_uart_c_write_string\<close> returns \<^verbatim>\<open>NRF_ERROR_INVALID_STATE\<close> and leaves the static
  state as it was: the buffer, both indices, and no call to the SoftDevice.
\<close>

theorem write_string_no_connection:
  assumes "c_conn_handle c = BLE_CONN_HANDLE_INVALID"
  shows "ble_uart_c_write_string (Some c) p_str p_str_len err_code s
           = Inr (NRF_ERROR_INVALID_STATE, s)"
  using assms by (simp add: ble_uart_c_write_string_def)

theorem write_string_no_connection_witness:
  "c_conn_handle unconnected_client = BLE_CONN_HANDLE_INVALID \<and>
   ble_uart_c_write_string (Some unconnected_client) [0x68, 0x69] 2 NRF_SUCCESS initial_state
     = Inr (NRF_ERROR_INVALID_STATE, initial_state)"
  using write_string_no_connection
          [of unconnected_client "[0x68, 0x69]" 2 NRF_SUCCESS initial_state]
  by (simp add: unconnected_client_def)

text \<open>
  C3. \<^verbatim>\<open>ble_uart_c_rx_notif_enable\<close> does not return an invalid-state error when no
  connection handle is established, and it does enqueue: the function tests its pointer
  only, and \<^verbatim>\<open>cccd_configure\<close> has no test of the connection handle, unlike
  \<^verbatim>\<open>ble_uart_c_write_string\<close>. Called right after initialisation, on the structure whose
  connection handle is \<^verbatim>\<open>BLE_CONN_HANDLE_INVALID\<close>, it returns \<^verbatim>\<open>NRF_SUCCESS\<close>, advances
  the insert index and passes a write for connection 0xFFFF to the SoftDevice.
\<close>

theorem rx_notif_enable_no_connection:
  "fst (ble_uart_c_rx_notif_enable (Some unconnected_client) NRF_SUCCESS initial_state)
     = NRF_SUCCESS \<and>
   m_tx_insert_index
     (snd (ble_uart_c_rx_notif_enable (Some unconnected_client) NRF_SUCCESS initial_state))
     = 1 \<and>
   sd_calls
     (snd (ble_uart_c_rx_notif_enable (Some unconnected_client) NRF_SUCCESS initial_state))
     = [(Sd_ble_gattc_write BLE_CONN_HANDLE_INVALID
           \<lparr>write_op = BLE_GATT_OP_WRITE_REQ, handle = BLE_GATT_HANDLE_INVALID, offset = 0,
            len = 2, p_value = Some 0\<rparr>
           [0x01, 0x00], NRF_SUCCESS)]"
  by (simp add: ble_uart_c_rx_notif_enable_def cccd_configure_def Let_def
      unconnected_client_def initial_state_def tx_buffer_process_def pending_call_def
      value_at_def zero_message_def eight_slots zero_value TX_BUFFER_MASK_def
      LSB_MSB_notification)

subsection \<open>Enabling notifications\<close>

text \<open>
  C8. \<^verbatim>\<open>ble_uart_c_rx_notif_enable\<close> returns \<^verbatim>\<open>NRF_SUCCESS\<close> and fills the slot at the
  insert index with a write request: the connection handle of the client structure, the
  handle \<^verbatim>\<open>RX_cccd_handle\<close> of the structure, length 2, offset 0, the write operation
  \<^verbatim>\<open>BLE_GATT_OP_WRITE_REQ\<close>, and a value pointer to the slot's own bytes, of which the
  first two are 0x01 and 0x00. When the buffer was empty, this is also the request the
  SoftDevice is given at once.
\<close>

theorem rx_notif_enable_message:
  assumes "tx_inv s"
  shows "\<exists>s'. ble_uart_c_rx_notif_enable (Some c) err_code s = (NRF_SUCCESS, s') \<and>
     m_tx_insert_index s' = (m_tx_insert_index s + 1) AND TX_BUFFER_MASK \<and>
     type (m_tx_buffer s' ! unat (m_tx_insert_index s)) = WRITE_REQ \<and>
     conn_handle (m_tx_buffer s' ! unat (m_tx_insert_index s)) = c_conn_handle c \<and>
     gattc_params (write_req (m_tx_buffer s' ! unat (m_tx_insert_index s))) =
       \<lparr>write_op = BLE_GATT_OP_WRITE_REQ, handle = RX_cccd_handle c, offset = 0, len = 2,
        p_value = Some (unat (m_tx_insert_index s))\<rparr> \<and>
     value_at (m_tx_buffer s') (Some (unat (m_tx_insert_index s))) 2 = [0x01, 0x00] \<and>
     (m_tx_index s = m_tx_insert_index s \<longrightarrow>
        sd_calls s' = sd_calls s @
          [(Sd_ble_gattc_write (c_conn_handle c)
              \<lparr>write_op = BLE_GATT_OP_WRITE_REQ, handle = RX_cccd_handle c, offset = 0,
               len = 2, p_value = Some (unat (m_tx_insert_index s))\<rparr>
              [0x01, 0x00], err_code)])"
proof -
  let ?i = "unat (m_tx_insert_index s)"
  have i: "?i < length (m_tx_buffer s)"
    using assms by (rule tx_inv_slot)
  have i8: "?i < 8"
    using assms by (simp add: tx_inv_def TX_BUFFER_SIZE_eq)
  then have l: "length (gattc_value (write_req (m_tx_buffer s ! ?i))) = 20"
    using assms tx_inv_value_length [of s ?i]
    by (simp add: WRITE_MESSAGE_LENGTH_def TX_BUFFER_SIZE_eq)
  have v: "take 2 ((gattc_value (write_req (m_tx_buffer s ! ?i)))[0 := 1, Suc 0 := 0]) = [1, 0]"
    using l by (cases "gattc_value (write_req (m_tx_buffer s ! ?i))"; simp)
      (rename_tac a as, case_tac as; simp)
  have ne: "(m_tx_insert_index s + 1) AND TX_BUFFER_MASK \<noteq> m_tx_insert_index s"
    using i8 by (rule inc_mask_neq)
  show ?thesis
    using i v ne
    by (simp add: ble_uart_c_rx_notif_enable_def cccd_configure_def Let_def
        tx_buffer_process_def pending_call_def value_at_def LSB_MSB_notification)
qed

theorem rx_notif_enable_message_witness:
  "tx_inv initial_state \<and>
   m_tx_index initial_state = m_tx_insert_index initial_state \<and>
   (\<exists>s'. ble_uart_c_rx_notif_enable (Some sample_client) NRF_SUCCESS initial_state
            = (NRF_SUCCESS, s') \<and>
      m_tx_insert_index s' = 1 \<and>
      type (m_tx_buffer s' ! 0) = WRITE_REQ \<and>
      conn_handle (m_tx_buffer s' ! 0) = 0 \<and>
      gattc_params (write_req (m_tx_buffer s' ! 0)) =
        \<lparr>write_op = BLE_GATT_OP_WRITE_REQ, handle = 0x10, offset = 0, len = 2,
         p_value = Some 0\<rparr> \<and>
      value_at (m_tx_buffer s') (Some 0) 2 = [0x01, 0x00] \<and>
      sd_calls s' =
        [(Sd_ble_gattc_write 0
            \<lparr>write_op = BLE_GATT_OP_WRITE_REQ, handle = 0x10, offset = 0, len = 2,
             p_value = Some 0\<rparr>
            [0x01, 0x00], NRF_SUCCESS)])"
  using rx_notif_enable_message [OF tx_inv_initial, of sample_client NRF_SUCCESS]
    tx_inv_initial
  by (simp add: initial_state_def sample_client_def TX_BUFFER_MASK_def)

subsection \<open>Notifications from the peer\<close>

text \<open>
  C7. On a handle-value notification, \<^verbatim>\<open>ble_uart_c_on_ble_evt\<close> calls the application's
  handler exactly when the notifying handle equals \<^verbatim>\<open>RX_handle\<close> of the client structure:
  then the handler is called once, with the event \<^verbatim>\<open>BLE_UART_C_EVT_RX_DATA_NOTIFICATION\<close>
  carrying the \<^verbatim>\<open>hvx.len\<close> bytes of the notification and that length, and nothing else
  changes; on any other handle the state is unchanged, so no handler is called.
\<close>

theorem hvx_forwarded_iff_rx_handle:
  "\<exists>s'. ble_uart_c_on_ble_evt (Some c) (Some (BLE_GATTC_EVT_HVX hvx)) err_code s
           = (Some c, s') \<and>
     (hvx_handle hvx = RX_handle c \<longrightarrow>
        app_calls s' = app_calls s @
          [(evt_handler c,
            BLE_UART_C_EVT_RX_DATA_NOTIFICATION
              (take (unat (hvx_len hvx)) (hvx_data hvx)) (hvx_len hvx))] \<and>
        s'\<lparr>app_calls := app_calls s\<rparr> = s) \<and>
     (hvx_handle hvx \<noteq> RX_handle c \<longrightarrow> s' = s)"
  by (simp add: ble_uart_c_on_ble_evt_def on_hvx_def)

theorem hvx_forwarded_iff_rx_handle_witness:
  "hvx_handle (sample_hvx 0x0F) = RX_handle sample_client \<and>
   hvx_handle (sample_hvx 0x0B) \<noteq> RX_handle sample_client \<and>
   app_calls (snd (ble_uart_c_on_ble_evt (Some sample_client)
       (Some (BLE_GATTC_EVT_HVX (sample_hvx 0x0F))) NRF_SUCCESS initial_state))
     = [(1, BLE_UART_C_EVT_RX_DATA_NOTIFICATION [0x68, 0x65, 0x79] 3)] \<and>
   ble_uart_c_on_ble_evt (Some sample_client) (Some (BLE_GATTC_EVT_HVX (sample_hvx 0x0B)))
       NRF_SUCCESS initial_state
     = (Some sample_client, initial_state)"
  using
    hvx_forwarded_iff_rx_handle [of sample_client "sample_hvx 0x0F" NRF_SUCCESS initial_state]
    hvx_forwarded_iff_rx_handle [of sample_client "sample_hvx 0x0B" NRF_SUCCESS initial_state]
  by (auto simp add: sample_client_def sample_hvx_def initial_state_def)

subsection \<open>The unchecked arguments of ble\_uart\_c\_write\_string\<close>

text \<open>
  C9. \<^verbatim>\<open>ble_uart_c_write_string\<close> has no test of \<^verbatim>\<open>p_str_len\<close>. With a connection, and
  a caller's array that holds \<^verbatim>\<open>p_str_len\<close> bytes: when \<^verbatim>\<open>p_str_len\<close> is at most 20 the
  function returns \<^verbatim>\<open>NRF_SUCCESS\<close>, the slot's write length is \<^verbatim>\<open>p_str_len\<close> as given
  and the first \<^verbatim>\<open>p_str_len\<close> bytes of the 20-byte \<^verbatim>\<open>gattc_value\<close> are those of the
  string; when \<^verbatim>\<open>p_str_len\<close> exceeds 20 the \<^verbatim>\<open>memcpy\<close> writes past the end of
  \<^verbatim>\<open>gattc_value\<close>, and no error status is returned for it.
\<close>

theorem write_string_length_unchecked:
  assumes "tx_inv s" and "c_conn_handle c \<noteq> BLE_CONN_HANDLE_INVALID"
    and "unat p_str_len \<le> length p_str"
  shows "(unat p_str_len \<le> WRITE_MESSAGE_LENGTH \<longrightarrow>
           (\<exists>s'. ble_uart_c_write_string (Some c) p_str p_str_len err_code s
                   = Inr (NRF_SUCCESS, s') \<and>
              len (gattc_params (write_req (m_tx_buffer s' ! unat (m_tx_insert_index s))))
                = p_str_len \<and>
              length (gattc_value (write_req (m_tx_buffer s' ! unat (m_tx_insert_index s))))
                = WRITE_MESSAGE_LENGTH \<and>
              take (unat p_str_len)
                (gattc_value (write_req (m_tx_buffer s' ! unat (m_tx_insert_index s))))
                = take (unat p_str_len) p_str)) \<and>
         (WRITE_MESSAGE_LENGTH < unat p_str_len \<longrightarrow>
            ble_uart_c_write_string (Some c) p_str p_str_len err_code s = Inl OutOfBounds)"
proof -
  let ?i = "unat (m_tx_insert_index s)"
  have i: "?i < length (m_tx_buffer s)"
    using assms(1) by (rule tx_inv_slot)
  have l: "length (gattc_value (write_req (m_tx_buffer s ! ?i))) = WRITE_MESSAGE_LENGTH"
    using assms(1) tx_inv_value_length [of s ?i] by (simp add: tx_inv_def)
  show ?thesis
    using assms(2,3) i l
    by (simp add: ble_uart_c_write_string_def memcpy_def Let_def)
qed

theorem write_string_length_unchecked_witness:
  "tx_inv initial_state \<and> c_conn_handle sample_client \<noteq> BLE_CONN_HANDLE_INVALID \<and>
   unat (2 :: 16 word) \<le> length [0x68 :: 8 word, 0x69] \<and>
   unat (2 :: 16 word) \<le> WRITE_MESSAGE_LENGTH \<and>
   unat (21 :: 16 word) \<le> length long_string \<and>
   WRITE_MESSAGE_LENGTH < unat (21 :: 16 word) \<and>
   (\<exists>s'. ble_uart_c_write_string (Some sample_client) [0x68, 0x69] 2 NRF_SUCCESS
            initial_state = Inr (NRF_SUCCESS, s') \<and>
      len (gattc_params (write_req (m_tx_buffer s' ! 0))) = 2 \<and>
      take 2 (gattc_value (write_req (m_tx_buffer s' ! 0))) = [0x68, 0x69]) \<and>
   ble_uart_c_write_string (Some sample_client) long_string 21 NRF_SUCCESS initial_state
     = Inl OutOfBounds"
proof -
  have c: "c_conn_handle sample_client \<noteq> BLE_CONN_HANDLE_INVALID"
    by (simp add: sample_client_def BLE_CONN_HANDLE_INVALID_def)
  have short: "unat (2 :: 16 word) \<le> length [0x68 :: 8 word, 0x69]"
    by simp
  have long: "unat (21 :: 16 word) \<le> length long_string"
    by (simp add: long_string_def)
  show ?thesis
    using write_string_length_unchecked [OF tx_inv_initial c short, of NRF_SUCCESS]
      write_string_length_unchecked [OF tx_inv_initial c long, of NRF_SUCCESS]
      tx_inv_initial c long
    by (auto simp add: WRITE_MESSAGE_LENGTH_def initial_indices)
qed

text \<open>
  C10. \<^verbatim>\<open>ble_uart_c_write_string\<close> reads \<^verbatim>\<open>p_ble_uart_c->conn_handle\<close> with no test of
  the pointer: on a null pointer the read is undefined (the fault \<open>NullPointer\<close>), on any
  other pointer it is not, and no call returns \<^verbatim>\<open>NRF_ERROR_NULL\<close>. The three other
  entry points test their pointers: \<^verbatim>\<open>ble_uart_c_init\<close> and
  \<^verbatim>\<open>ble_uart_c_rx_notif_enable\<close> return \<^verbatim>\<open>NRF_ERROR_NULL\<close>, and
  \<^verbatim>\<open>ble_uart_c_on_ble_evt\<close> returns with nothing changed.
\<close>

theorem write_string_null_context:
  "ble_uart_c_write_string None p_str p_str_len err_code s = Inl NullPointer \<and>
   ble_uart_c_write_string (Some c) p_str p_str_len err_code s \<noteq> Inl NullPointer \<and>
   ble_uart_c_write_string p_ble_uart_c p_str p_str_len err_code s
     \<noteq> Inr (NRF_ERROR_NULL, s') \<and>
   fst (ble_uart_c_init None p_init vs_add registered s) = NRF_ERROR_NULL \<and>
   fst (ble_uart_c_init p_ble_uart_c None vs_add registered s) = NRF_ERROR_NULL \<and>
   ble_uart_c_rx_notif_enable None err_code s = (NRF_ERROR_NULL, s) \<and>
   ble_uart_c_on_ble_evt None p_ble_evt err_code s = (None, s) \<and>
   ble_uart_c_on_ble_evt p_ble_uart_c None err_code s = (p_ble_uart_c, s)"
  by (auto simp add: ble_uart_c_write_string_def ble_uart_c_init_def
      ble_uart_c_rx_notif_enable_def ble_uart_c_on_ble_evt_def Let_def memcpy_def
      NRF_ERROR_NULL_def NRF_ERROR_INVALID_STATE_def NRF_SUCCESS_def
      split: option.splits sum.splits if_splits)

subsection \<open>The ring buffer: one step\<close>

lemma tx_inv_process: "tx_inv s \<Longrightarrow> tx_inv (tx_buffer_process e s)"
  by (simp add: tx_inv_def tx_buffer_process_def Let_def unat_inc_mask TX_BUFFER_SIZE_eq)

lemma tx_inv_stored:
  assumes "tx_inv s" and "length (gattc_value (write_req m)) = WRITE_MESSAGE_LENGTH"
  shows "tx_inv (stored m s)"
  using assms
  by (auto simp add: tx_inv_def stored_def unat_inc_mask TX_BUFFER_SIZE_eq list_all_length
      nth_list_update)

lemma write_string_stored:
  assumes "tx_inv s" and "c_conn_handle c \<noteq> BLE_CONN_HANDLE_INVALID"
    and "unat n \<le> WRITE_MESSAGE_LENGTH" and "unat n \<le> length p"
  shows "\<exists>m. length (gattc_value (write_req m)) = WRITE_MESSAGE_LENGTH \<and>
           ble_uart_c_write_string (Some c) p n e s
             = Inr (NRF_SUCCESS, tx_buffer_process e (stored m s))"
proof -
  let ?i = "unat (m_tx_insert_index s)"
  have l: "length (gattc_value (write_req (m_tx_buffer s ! ?i))) = WRITE_MESSAGE_LENGTH"
    using assms(1) tx_inv_value_length [of s ?i] by (simp add: tx_inv_def)
  let ?m = "(m_tx_buffer s ! ?i)
      \<lparr>write_req :=
         \<lparr>gattc_value = take (unat n) p @ drop (unat n) (gattc_value (write_req (m_tx_buffer s ! ?i))),
          gattc_params = (gattc_params (write_req (m_tx_buffer s ! ?i)))
             \<lparr>handle := TX_handle c, len := n, p_value := Some ?i, offset := 0,
              write_op := BLE_GATT_OP_WRITE_REQ\<rparr>\<rparr>,
       conn_handle := c_conn_handle c, type := WRITE_REQ\<rparr>"
  have "length (gattc_value (write_req ?m)) = WRITE_MESSAGE_LENGTH"
    using l assms(3,4) by simp
  moreover have "ble_uart_c_write_string (Some c) p n e s
             = Inr (NRF_SUCCESS, tx_buffer_process e (stored ?m s))"
    using assms(2,3,4) l
    by (simp add: ble_uart_c_write_string_def memcpy_def Let_def stored_def)
  ultimately show ?thesis by blast
qed

lemma cccd_configure_stored:
  assumes "tx_inv s"
  shows "\<exists>m. length (gattc_value (write_req m)) = WRITE_MESSAGE_LENGTH \<and>
           cccd_configure conn h en e s = (NRF_SUCCESS, tx_buffer_process e (stored m s))"
proof -
  let ?i = "unat (m_tx_insert_index s)"
  have l: "length (gattc_value (write_req (m_tx_buffer s ! ?i))) = WRITE_MESSAGE_LENGTH"
    using assms(1) tx_inv_value_length [of s ?i] by (simp add: tx_inv_def)
  let ?m = "(m_tx_buffer s ! ?i)
      \<lparr>write_req :=
         \<lparr>gattc_value = (gattc_value (write_req (m_tx_buffer s ! ?i)))
             [0 := LSB_16 (if en then BLE_GATT_HVX_NOTIFICATION else 0),
              1 := MSB_16 (if en then BLE_GATT_HVX_NOTIFICATION else 0)],
          gattc_params = (gattc_params (write_req (m_tx_buffer s ! ?i)))
             \<lparr>handle := h, len := 2, p_value := Some ?i, offset := 0,
              write_op := BLE_GATT_OP_WRITE_REQ\<rparr>\<rparr>,
       conn_handle := conn, type := WRITE_REQ\<rparr>"
  have "length (gattc_value (write_req ?m)) = WRITE_MESSAGE_LENGTH"
    using l by simp
  moreover have "cccd_configure conn h en e s = (NRF_SUCCESS, tx_buffer_process e (stored ?m s))"
    by (simp add: cccd_configure_def Let_def stored_def)
  ultimately show ?thesis by blast
qed

lemma api_step_enqueue:
  assumes "tx_inv s" and "c_conn_handle c \<noteq> BLE_CONN_HANDLE_INVALID" and "enqueues (fst a)"
  shows "\<exists>m. length (gattc_value (write_req m)) = WRITE_MESSAGE_LENGTH \<and>
           api_step c a s = Inr (c, tx_buffer_process (snd a) (stored m s))"
proof (cases "fst a")
  case (Write_string p n)
  then have "unat n \<le> WRITE_MESSAGE_LENGTH" "unat n \<le> length p"
    using assms(3) by simp_all
  from write_string_stored [OF assms(1,2) this, of "snd a"] Write_string
  show ?thesis by (auto simp add: api_step_def)
next
  case Rx_notif_enable
  from cccd_configure_stored [OF assms(1), of "c_conn_handle c" "RX_cccd_handle c" True "snd a"]
    Rx_notif_enable
  show ?thesis by (auto simp add: api_step_def ble_uart_c_rx_notif_enable_def)
next
  case (On_ble_evt e)
  with assms(3) show ?thesis by simp
qed

lemma api_step_write_rsp:
  "api_step c (On_ble_evt BLE_GATTC_EVT_WRITE_RSP, e) s = Inr (c, tx_buffer_process e s)"
  by (simp add: api_step_def ble_uart_c_on_ble_evt_def on_write_rsp_def)

lemma accepted_process:
  "accepted (tx_buffer_process e s) =
     accepted s + (if m_tx_index s \<noteq> m_tx_insert_index s \<and> e = NRF_SUCCESS then 1 else 0)"
  by (simp add: accepted_def tx_buffer_process_def Let_def)

lemma index_process:
  "unat (m_tx_index (tx_buffer_process e s)) =
     (if m_tx_index s \<noteq> m_tx_insert_index s \<and> e = NRF_SUCCESS
      then (unat (m_tx_index s) + 1) mod 8 else unat (m_tx_index s))"
  by (simp add: tx_buffer_process_def Let_def unat_inc_mask)

lemma stored_simps [simp]:
  "m_tx_index (stored m s) = m_tx_index s"
  "sd_calls (stored m s) = sd_calls s"
  "accepted (stored m s) = accepted s"
  "m_tx_insert_index (stored m s) = (m_tx_insert_index s + 1) AND TX_BUFFER_MASK"
  "m_tx_buffer (stored m s) = (m_tx_buffer s)[unat (m_tx_insert_index s) := m]"
  by (simp_all add: stored_def accepted_def)

text \<open>One enqueue: the insert index moves on by one, the dispatch index by the number of
  submissions accepted, which is none or one.\<close>

lemma enqueue_step_indices:
  assumes "tx_inv s" and "c_conn_handle c \<noteq> BLE_CONN_HANDLE_INVALID" and "enqueues (fst a)"
  shows "\<exists>s' k. api_step c a s = Inr (c, s') \<and> tx_inv s' \<and> k \<le> 1 \<and>
           accepted s' = accepted s + k \<and>
           unat (m_tx_insert_index s') = (unat (m_tx_insert_index s) + 1) mod 8 \<and>
           unat (m_tx_index s') = (unat (m_tx_index s) + k) mod 8"
proof -
  from api_step_enqueue [OF assms] obtain m where
    m: "length (gattc_value (write_req m)) = WRITE_MESSAGE_LENGTH"
    and step: "api_step c a s = Inr (c, tx_buffer_process (snd a) (stored m s))"
    by blast
  let ?s' = "tx_buffer_process (snd a) (stored m s)"
  let ?k = "if m_tx_index (stored m s) \<noteq> m_tx_insert_index (stored m s) \<and> snd a = NRF_SUCCESS
            then 1 else 0 :: nat"
  have inv: "tx_inv ?s'"
    using assms(1) m by (simp add: tx_inv_stored tx_inv_process)
  have lt: "unat (m_tx_index s) < 8"
    using assms(1) by (simp add: tx_inv_def TX_BUFFER_SIZE_eq)
  have "accepted ?s' = accepted s + ?k"
    by (simp add: accepted_process)
  moreover have "unat (m_tx_insert_index ?s') = (unat (m_tx_insert_index s) + 1) mod 8"
    by (simp add: unat_inc_mask)
  moreover have "unat (m_tx_index ?s') = (unat (m_tx_index s) + ?k) mod 8"
    using lt by (auto simp add: index_process)
  moreover have "?k \<le> 1" by simp
  ultimately show ?thesis using step inv by blast
qed

lemma response_step_indices:
  assumes "tx_inv s" and "fst a = On_ble_evt BLE_GATTC_EVT_WRITE_RSP"
  shows "\<exists>s' k. api_step c a s = Inr (c, s') \<and> tx_inv s' \<and> k \<le> 1 \<and>
           accepted s' = accepted s + k \<and>
           m_tx_insert_index s' = m_tx_insert_index s \<and>
           unat (m_tx_index s') = (unat (m_tx_index s) + k) mod 8"
proof -
  have step: "api_step c a s = Inr (c, tx_buffer_process (snd a) s)"
    using assms(2) api_step_write_rsp [of c "snd a" s] by (cases a) simp
  let ?s' = "tx_buffer_process (snd a) s"
  let ?k = "if m_tx_index s \<noteq> m_tx_insert_index s \<and> snd a = NRF_SUCCESS then 1 else 0 :: nat"
  have lt: "unat (m_tx_index s) < 8"
    using assms(1) by (simp add: tx_inv_def TX_BUFFER_SIZE_eq)
  have "accepted ?s' = accepted s + ?k"
    by (simp add: accepted_process)
  moreover have "unat (m_tx_index ?s') = (unat (m_tx_index s) + ?k) mod 8"
    using lt by (auto simp add: index_process)
  moreover have "?k \<le> 1" by simp
  moreover have "tx_inv ?s'" using assms(1) by (rule tx_inv_process)
  ultimately show ?thesis using step by auto
qed

subsection \<open>The ring buffer: runs\<close>

lemma tx_inv_app_calls: "tx_inv (s\<lparr>app_calls := x\<rparr>) = tx_inv s"
  by (simp add: tx_inv_def)

lemma api_step_tx_inv:
  assumes "tx_inv s" and "api_step c a s = Inr (c', s')"
  shows "tx_inv s'"
proof (cases "fst a")
  case (Write_string p n)
  let ?i = "unat (m_tx_insert_index s)"
  have l: "length (gattc_value (write_req (m_tx_buffer s ! ?i))) = WRITE_MESSAGE_LENGTH"
    using assms(1) tx_inv_value_length [of s ?i] by (simp add: tx_inv_def)
  show ?thesis
  proof (cases "c_conn_handle c = BLE_CONN_HANDLE_INVALID")
    case True
    with assms Write_string show ?thesis
      by (simp add: api_step_def ble_uart_c_write_string_def)
  next
    case False
    show ?thesis
    proof (cases "unat n \<le> WRITE_MESSAGE_LENGTH \<and> unat n \<le> length p")
      case True
      with write_string_stored [OF assms(1) False, of n p "snd a"] obtain m where
        "length (gattc_value (write_req m)) = WRITE_MESSAGE_LENGTH"
        "ble_uart_c_write_string (Some c) p n (snd a) s
           = Inr (NRF_SUCCESS, tx_buffer_process (snd a) (stored m s))"
        by blast
      with assms Write_string show ?thesis
        by (auto simp add: api_step_def tx_inv_stored tx_inv_process)
    next
      case no: False
      with False l have "ble_uart_c_write_string (Some c) p n (snd a) s = Inl OutOfBounds"
        by (auto simp add: ble_uart_c_write_string_def memcpy_def Let_def)
      with assms(2) Write_string show ?thesis
        by (simp add: api_step_def)
    qed
  qed
next
  case Rx_notif_enable
  from cccd_configure_stored [OF assms(1), of "c_conn_handle c" "RX_cccd_handle c" True "snd a"]
  obtain m where
    "length (gattc_value (write_req m)) = WRITE_MESSAGE_LENGTH"
    "cccd_configure (c_conn_handle c) (RX_cccd_handle c) True (snd a) s
       = (NRF_SUCCESS, tx_buffer_process (snd a) (stored m s))"
    by blast
  with assms Rx_notif_enable show ?thesis
    by (auto simp add: api_step_def ble_uart_c_rx_notif_enable_def tx_inv_stored tx_inv_process)
next
  case (On_ble_evt ev)
  with assms show ?thesis
    by (cases ev)
      (auto simp add: api_step_def ble_uart_c_on_ble_evt_def on_write_rsp_def on_hvx_def
        tx_inv_process tx_inv_app_calls)
qed

text \<open>Every state a run reaches from a state with the invariant has it: every array
  access of the file stays in range.\<close>

lemma run_tx_inv:
  assumes "tx_inv s" and "run c as s = Inr (c', s')"
  shows "tx_inv s'"
  using assms
proof (induction as arbitrary: c s)
  case Nil
  then show ?case by simp
next
  case (Cons a as)
  from Cons.prems(2) obtain c1 s1 where
    step: "api_step c a s = Inr (c1, s1)" and rest: "run c1 as s1 = Inr (c', s')"
    by (auto split: sum.splits)
  from api_step_tx_inv [OF Cons.prems(1) step] have "tx_inv s1" .
  from Cons.IH [OF this rest] show ?case .
qed

lemma run_enqueues_indices:
  assumes "tx_inv s" and "c_conn_handle c \<noteq> BLE_CONN_HANDLE_INVALID"
    and "\<forall>a\<in>set as. enqueues (fst a)"
  shows "\<exists>s' k. run c as s = Inr (c, s') \<and> tx_inv s' \<and> k \<le> length as \<and>
           accepted s' = accepted s + k \<and>
           unat (m_tx_insert_index s') = (unat (m_tx_insert_index s) + length as) mod 8 \<and>
           unat (m_tx_index s') = (unat (m_tx_index s) + k) mod 8"
  using assms
proof (induction as arbitrary: s)
  case Nil
  then have "unat (m_tx_insert_index s) < 8" "unat (m_tx_index s) < 8"
    by (simp_all add: tx_inv_def TX_BUFFER_SIZE_eq)
  with Nil show ?case by simp
next
  case (Cons a as)
  from Cons.prems have "enqueues (fst a)" by simp
  from enqueue_step_indices [OF Cons.prems(1,2) this] obtain s1 k1 where
    s1: "api_step c a s = Inr (c, s1)" "tx_inv s1" "k1 \<le> 1" "accepted s1 = accepted s + k1"
      "unat (m_tx_insert_index s1) = (unat (m_tx_insert_index s) + 1) mod 8"
      "unat (m_tx_index s1) = (unat (m_tx_index s) + k1) mod 8"
    by blast
  from Cons.prems have "\<forall>a\<in>set as. enqueues (fst a)" by simp
  from Cons.IH [OF s1(2) Cons.prems(2) this] obtain s' k where
    s': "run c as s1 = Inr (c, s')" "tx_inv s'" "k \<le> length as" "accepted s' = accepted s1 + k"
      "unat (m_tx_insert_index s') = (unat (m_tx_insert_index s1) + length as) mod 8"
      "unat (m_tx_index s') = (unat (m_tx_index s1) + k) mod 8"
    by blast
  have "run c (a # as) s = Inr (c, s')"
    using s1(1) s'(1) by simp
  moreover have "k1 + k \<le> length (a # as)"
    using s1(3) s'(3) by simp
  moreover have "accepted s' = accepted s + (k1 + k)"
    using s1(4) s'(4) by simp
  moreover have "unat (m_tx_insert_index s') = (unat (m_tx_insert_index s) + length (a # as)) mod 8"
    using s1(5) s'(5) by (simp add: mod_simps)
  moreover have "unat (m_tx_index s') = (unat (m_tx_index s) + (k1 + k)) mod 8"
    using s1(6) s'(6) by (simp add: mod_simps add.assoc)
  ultimately show ?case using s'(2) by blast
qed


lemma run_append:
  "run c (as @ bs) s =
     (case run c as s of Inl f \<Rightarrow> Inl f | Inr r \<Rightarrow> run (fst r) bs (snd r))"
  by (induction as arbitrary: c s) (simp_all split: sum.splits)

lemma run_responses_indices:
  assumes "tx_inv s" and "\<forall>a\<in>set as. fst a = On_ble_evt BLE_GATTC_EVT_WRITE_RSP"
  shows "\<exists>s' k. run c as s = Inr (c, s') \<and> tx_inv s' \<and> k \<le> length as \<and>
           accepted s' = accepted s + k \<and>
           m_tx_insert_index s' = m_tx_insert_index s \<and>
           unat (m_tx_index s') = (unat (m_tx_index s) + k) mod 8"
  using assms
proof (induction as arbitrary: s)
  case Nil
  then have "unat (m_tx_index s) < 8"
    by (simp add: tx_inv_def TX_BUFFER_SIZE_eq)
  with Nil show ?case by simp
next
  case (Cons a as)
  from Cons.prems have "fst a = On_ble_evt BLE_GATTC_EVT_WRITE_RSP" by simp
  from response_step_indices [OF Cons.prems(1) this] obtain s1 k1 where
    s1: "api_step c a s = Inr (c, s1)" "tx_inv s1" "k1 \<le> 1" "accepted s1 = accepted s + k1"
      "m_tx_insert_index s1 = m_tx_insert_index s"
      "unat (m_tx_index s1) = (unat (m_tx_index s) + k1) mod 8"
    by blast
  from Cons.prems have "\<forall>a\<in>set as. fst a = On_ble_evt BLE_GATTC_EVT_WRITE_RSP" by simp
  from Cons.IH [OF s1(2) this] obtain s' k where
    s': "run c as s1 = Inr (c, s')" "tx_inv s'" "k \<le> length as" "accepted s' = accepted s1 + k"
      "m_tx_insert_index s' = m_tx_insert_index s1"
      "unat (m_tx_index s') = (unat (m_tx_index s1) + k) mod 8"
    by blast
  have "run c (a # as) s = Inr (c, s')"
    using s1(1) s'(1) by simp
  moreover have "k1 + k \<le> length (a # as)"
    using s1(3) s'(3) by simp
  moreover have "accepted s' = accepted s + (k1 + k)"
    using s1(4) s'(4) by simp
  moreover have "m_tx_insert_index s' = m_tx_insert_index s"
    using s1(5) s'(5) by simp
  moreover have "unat (m_tx_index s') = (unat (m_tx_index s) + (k1 + k)) mod 8"
    using s1(6) s'(6) by (simp add: mod_simps add.assoc)
  ultimately show ?case using s'(2) by blast
qed

lemma mod8_shift_neq:
  assumes "(b::nat) < 8" and "d < 8" and "0 < d"
  shows "(b + d) mod 8 \<noteq> b"
proof
  assume e: "(b + d) mod 8 = b"
  show False
  proof (cases "b + d < 8")
    case True
    then have "(b + d) mod 8 = b + d" by simp
    with e assms show False by simp
  next
    case False
    then have "(b + d) mod 8 = b + d - 8"
      using assms by (simp add: mod_if)
    with e assms False show False by simp
  qed
qed

lemma ahead_zero:
  assumes "tx_inv s" and "ahead s 0"
  shows "m_tx_index s = m_tx_insert_index s"
proof -
  have "unat (m_tx_index s) < 8"
    using assms(1) by (simp add: tx_inv_def TX_BUFFER_SIZE_eq)
  with assms(2) have "unat (m_tx_index s) = unat (m_tx_insert_index s)"
    by (simp add: ahead_def)
  then show ?thesis by (simp add: word_unat_eq_iff)
qed

lemma ahead_accepting_response:
  assumes "tx_inv s" and "ahead s d"
  shows "ahead (tx_buffer_process NRF_SUCCESS s) (d - 1)"
proof (cases d)
  case 0
  with assms have "m_tx_index s = m_tx_insert_index s"
    by (simp add: ahead_zero)
  then have "tx_buffer_process NRF_SUCCESS s = s"
    by (simp add: tx_buffer_process_def)
  with 0 assms(2) show ?thesis by simp
next
  case (Suc d')
  have b: "unat (m_tx_index s) < 8"
    using assms(1) by (simp add: tx_inv_def TX_BUFFER_SIZE_eq)
  have d: "d < 8" and ins: "unat (m_tx_insert_index s) = (unat (m_tx_index s) + d) mod 8"
    using assms(2) by (simp_all add: ahead_def)
  have "unat (m_tx_insert_index s) \<noteq> unat (m_tx_index s)"
    using mod8_shift_neq [OF b d] Suc ins by simp
  then have ne: "m_tx_index s \<noteq> m_tx_insert_index s"
    by auto
  then have "unat (m_tx_index (tx_buffer_process NRF_SUCCESS s)) = (unat (m_tx_index s) + 1) mod 8"
    by (simp add: index_process)
  then have "unat (m_tx_insert_index (tx_buffer_process NRF_SUCCESS s))
      = (unat (m_tx_index (tx_buffer_process NRF_SUCCESS s)) + d') mod 8"
    using ins Suc by (simp add: mod_simps)
  then show ?thesis using d Suc by (simp add: ahead_def)
qed

lemma run_accepting_responses:
  assumes "tx_inv s" and "ahead s d"
    and "\<forall>a\<in>set as. a = (On_ble_evt BLE_GATTC_EVT_WRITE_RSP, NRF_SUCCESS)"
  shows "\<exists>s'. run c as s = Inr (c, s') \<and> tx_inv s' \<and> ahead s' (d - length as)"
  using assms
proof (induction as arbitrary: s d)
  case Nil
  then show ?case by simp
next
  case (Cons a as)
  from Cons.prems have a: "a = (On_ble_evt BLE_GATTC_EVT_WRITE_RSP, NRF_SUCCESS)" by simp
  let ?s1 = "tx_buffer_process NRF_SUCCESS s"
  have step: "api_step c a s = Inr (c, ?s1)"
    using a by (simp add: api_step_write_rsp)
  have inv: "tx_inv ?s1" using Cons.prems(1) by (rule tx_inv_process)
  have ah: "ahead ?s1 (d - 1)"
    using Cons.prems(1,2) by (rule ahead_accepting_response)
  from Cons.prems have "\<forall>a\<in>set as. a = (On_ble_evt BLE_GATTC_EVT_WRITE_RSP, NRF_SUCCESS)" by simp
  from Cons.IH [OF inv ah this] obtain s' where
    s': "run c as ?s1 = Inr (c, s')" "tx_inv s'" "ahead s' (d - 1 - length as)"
    by blast
  then show ?case using step by simp
qed

lemma process_rejected:
  assumes "e \<noteq> NRF_SUCCESS"
  shows "m_tx_index (tx_buffer_process e s) = m_tx_index s"
    and "accepted (tx_buffer_process e s) = accepted s"
  using assms by (simp_all add: tx_buffer_process_def Let_def accepted_def)

lemma run_rejected_enqueues:
  assumes "tx_inv s" and "c_conn_handle c \<noteq> BLE_CONN_HANDLE_INVALID"
    and "\<forall>a\<in>set as. enqueues (fst a) \<and> snd a \<noteq> NRF_SUCCESS"
  shows "\<exists>s'. run c as s = Inr (c, s') \<and> tx_inv s' \<and>
           m_tx_index s' = m_tx_index s \<and> accepted s' = accepted s \<and>
           unat (m_tx_insert_index s') = (unat (m_tx_insert_index s) + length as) mod 8 \<and>
           (\<forall>j. (\<forall>k<length as. j \<noteq> (unat (m_tx_insert_index s) + k) mod 8) \<longrightarrow>
                m_tx_buffer s' ! j = m_tx_buffer s ! j)"
  using assms
proof (induction as arbitrary: s)
  case Nil
  then have "unat (m_tx_insert_index s) < 8"
    by (simp add: tx_inv_def TX_BUFFER_SIZE_eq)
  with Nil show ?case by simp
next
  case (Cons a as)
  let ?i = "unat (m_tx_insert_index s)"
  have i8: "?i < 8"
    using Cons.prems(1) by (simp add: tx_inv_def TX_BUFFER_SIZE_eq)
  from Cons.prems have a: "enqueues (fst a)" "snd a \<noteq> NRF_SUCCESS" by simp_all
  from api_step_enqueue [OF Cons.prems(1,2) a(1)] obtain m where
    m: "length (gattc_value (write_req m)) = WRITE_MESSAGE_LENGTH"
    and step: "api_step c a s = Inr (c, tx_buffer_process (snd a) (stored m s))"
    by blast
  let ?s1 = "tx_buffer_process (snd a) (stored m s)"
  have inv1: "tx_inv ?s1"
    using Cons.prems(1) m by (simp add: tx_inv_stored tx_inv_process)
  have idx1: "m_tx_index ?s1 = m_tx_index s" and acc1: "accepted ?s1 = accepted s"
    using a(2) by (simp_all add: process_rejected)
  have ins1: "unat (m_tx_insert_index ?s1) = (?i + 1) mod 8"
    by (simp add: unat_inc_mask)
  have buf1: "m_tx_buffer ?s1 = (m_tx_buffer s)[?i := m]"
    by simp
  from Cons.prems have "\<forall>a\<in>set as. enqueues (fst a) \<and> snd a \<noteq> NRF_SUCCESS" by simp
  from Cons.IH [OF inv1 Cons.prems(2) this] obtain s' where
    s': "run c as ?s1 = Inr (c, s')" "tx_inv s'" "m_tx_index s' = m_tx_index ?s1"
      "accepted s' = accepted ?s1"
      "unat (m_tx_insert_index s') = (unat (m_tx_insert_index ?s1) + length as) mod 8"
      "\<forall>j. (\<forall>k<length as. j \<noteq> (unat (m_tx_insert_index ?s1) + k) mod 8) \<longrightarrow>
            m_tx_buffer s' ! j = m_tx_buffer ?s1 ! j"
    by blast
  have "run c (a # as) s = Inr (c, s')"
    using step s'(1) by simp
  moreover have "unat (m_tx_insert_index s') = (?i + length (a # as)) mod 8"
    using s'(5) ins1 by (simp add: mod_simps)
  moreover have "m_tx_buffer s' ! j = m_tx_buffer s ! j"
    if j: "\<forall>k<length (a # as). j \<noteq> (?i + k) mod 8" for j
  proof -
    from j have "j \<noteq> (?i + 0) mod 8" by (metis length_Cons zero_less_Suc)
    then have j0: "j \<noteq> ?i" using i8 by simp
    have "j \<noteq> ((?i + 1) mod 8 + k) mod 8" if "k < length as" for k
    proof -
      from that have "Suc k < length (a # as)" by simp
      with j have "j \<noteq> (?i + Suc k) mod 8" by blast
      then show ?thesis by (simp add: mod_simps)
    qed
    then have "m_tx_buffer s' ! j = m_tx_buffer ?s1 ! j"
      using s'(6) ins1 by simp
    then show ?thesis using j0 by simp
  qed
  ultimately show ?case
    using s'(2,3,4) idx1 acc1 by auto
qed

lemma write_string_slot:
  assumes "tx_inv s" and "c_conn_handle c \<noteq> BLE_CONN_HANDLE_INVALID"
    and "unat n \<le> WRITE_MESSAGE_LENGTH" and "unat n \<le> length p"
  shows "\<exists>s'. ble_uart_c_write_string (Some c) p n e s = Inr (NRF_SUCCESS, s') \<and>
           type (m_tx_buffer s' ! unat (m_tx_insert_index s)) = WRITE_REQ \<and>
           conn_handle (m_tx_buffer s' ! unat (m_tx_insert_index s)) = c_conn_handle c \<and>
           handle (gattc_params (write_req (m_tx_buffer s' ! unat (m_tx_insert_index s))))
             = TX_handle c \<and>
           len (gattc_params (write_req (m_tx_buffer s' ! unat (m_tx_insert_index s)))) = n \<and>
           take (unat n) (gattc_value (write_req (m_tx_buffer s' ! unat (m_tx_insert_index s))))
             = take (unat n) p"
proof -
  let ?i = "unat (m_tx_insert_index s)"
  have i: "?i < length (m_tx_buffer s)"
    using assms(1) by (rule tx_inv_slot)
  have l: "length (gattc_value (write_req (m_tx_buffer s ! ?i))) = WRITE_MESSAGE_LENGTH"
    using assms(1) tx_inv_value_length [of s ?i] by (simp add: tx_inv_def)
  show ?thesis
    using assms(2,3,4) i l
    by (simp add: ble_uart_c_write_string_def memcpy_def Let_def)
qed

lemma cccd_configure_slot:
  assumes "tx_inv s"
  shows "\<exists>s'. cccd_configure conn h en e s = (NRF_SUCCESS, s') \<and>
           type (m_tx_buffer s' ! unat (m_tx_insert_index s)) = WRITE_REQ \<and>
           conn_handle (m_tx_buffer s' ! unat (m_tx_insert_index s)) = conn \<and>
           handle (gattc_params (write_req (m_tx_buffer s' ! unat (m_tx_insert_index s)))) = h \<and>
           len (gattc_params (write_req (m_tx_buffer s' ! unat (m_tx_insert_index s)))) = 2"
proof -
  have "unat (m_tx_insert_index s) < length (m_tx_buffer s)"
    using assms by (rule tx_inv_slot)
  then show ?thesis
    by (simp add: cccd_configure_def Let_def)
qed

lemma sd_calls_process:
  "sd_calls (tx_buffer_process e s) =
     (if m_tx_index s = m_tx_insert_index s then sd_calls s
      else sd_calls s @ [(pending_call s, e)])"
  by (simp add: tx_buffer_process_def Let_def)

lemma rejected_entry_retried_on_response:
  assumes "m_tx_index s \<noteq> m_tx_insert_index s" and "e \<noteq> NRF_SUCCESS"
  shows "sd_calls (tx_buffer_process e' (tx_buffer_process e s))
           = sd_calls s @ [(pending_call s, e), (pending_call s, e')]"
  using assms by (simp add: tx_buffer_process_def Let_def pending_call_def)


lemma api_step_enqueue_message:
  assumes "tx_inv s" and "c_conn_handle c \<noteq> BLE_CONN_HANDLE_INVALID" and "enqueues (fst a)"
  shows "\<exists>m. type m = WRITE_REQ \<and> conn_handle m = c_conn_handle c \<and>
           p_value (gattc_params (write_req m)) = Some (unat (m_tx_insert_index s)) \<and>
           unat (len (gattc_params (write_req m))) \<le> WRITE_MESSAGE_LENGTH \<and>
           length (gattc_value (write_req m)) = WRITE_MESSAGE_LENGTH \<and>
           api_step c a s = Inr (c, tx_buffer_process (snd a) (stored m s))"
proof -
  let ?i = "unat (m_tx_insert_index s)"
  let ?old = "m_tx_buffer s ! ?i"
  have l: "length (gattc_value (write_req ?old)) = WRITE_MESSAGE_LENGTH"
    using assms(1) tx_inv_value_length [of s ?i] by (simp add: tx_inv_def)
  show ?thesis
  proof (cases "fst a")
    case (Write_string p n)
    then have n: "unat n \<le> WRITE_MESSAGE_LENGTH" "unat n \<le> length p"
      using assms(3) by simp_all
    let ?m = "?old
      \<lparr>write_req :=
         \<lparr>gattc_value = take (unat n) p @ drop (unat n) (gattc_value (write_req ?old)),
          gattc_params = (gattc_params (write_req ?old))
             \<lparr>handle := TX_handle c, len := n, p_value := Some ?i, offset := 0,
              write_op := BLE_GATT_OP_WRITE_REQ\<rparr>\<rparr>,
       conn_handle := c_conn_handle c, type := WRITE_REQ\<rparr>"
    have "api_step c a s = Inr (c, tx_buffer_process (snd a) (stored ?m s))"
      using Write_string assms(2) n l
      by (simp add: api_step_def ble_uart_c_write_string_def memcpy_def Let_def stored_def)
    moreover have "length (gattc_value (write_req ?m)) = WRITE_MESSAGE_LENGTH"
      using l n by simp
    moreover have "unat (len (gattc_params (write_req ?m))) \<le> WRITE_MESSAGE_LENGTH"
      using n by simp
    moreover have "type ?m = WRITE_REQ" "conn_handle ?m = c_conn_handle c"
      "p_value (gattc_params (write_req ?m)) = Some ?i"
      by simp_all
    ultimately show ?thesis by blast
  next
    case Rx_notif_enable
    let ?m = "?old
      \<lparr>write_req :=
         \<lparr>gattc_value = (gattc_value (write_req ?old))
             [0 := LSB_16 BLE_GATT_HVX_NOTIFICATION, 1 := MSB_16 BLE_GATT_HVX_NOTIFICATION],
          gattc_params = (gattc_params (write_req ?old))
             \<lparr>handle := RX_cccd_handle c, len := 2, p_value := Some ?i, offset := 0,
              write_op := BLE_GATT_OP_WRITE_REQ\<rparr>\<rparr>,
       conn_handle := c_conn_handle c, type := WRITE_REQ\<rparr>"
    have "api_step c a s = Inr (c, tx_buffer_process (snd a) (stored ?m s))"
      using Rx_notif_enable
      by (simp add: api_step_def ble_uart_c_rx_notif_enable_def cccd_configure_def Let_def
          stored_def)
    moreover have "length (gattc_value (write_req ?m)) = WRITE_MESSAGE_LENGTH"
      using l by simp
    moreover have "unat (len (gattc_params (write_req ?m))) \<le> WRITE_MESSAGE_LENGTH"
      by (simp add: WRITE_MESSAGE_LENGTH_def)
    moreover have "type ?m = WRITE_REQ" "conn_handle ?m = c_conn_handle c"
      "p_value (gattc_params (write_req ?m)) = Some ?i"
      by simp_all
    ultimately show ?thesis by blast
  next
    case (On_ble_evt e)
    with assms(3) show ?thesis by simp
  qed
qed

text \<open>An enqueue into an empty buffer submits the message it has just stored.\<close>

lemma enqueue_on_empty:
  assumes "tx_inv s" and "m_tx_index s = m_tx_insert_index s"
    and "c_conn_handle c \<noteq> BLE_CONN_HANDLE_INVALID" and "enqueues (fst a)"
  shows "\<exists>(m :: tx_message_t) s'. api_step c a s = Inr (c, s') \<and> tx_inv s' \<and>
           sd_calls s' = sd_calls s @
             [(Sd_ble_gattc_write (c_conn_handle c) (gattc_params (write_req m))
                 (take (unat (len (gattc_params (write_req m)))) (gattc_value (write_req m))),
               snd a)] \<and>
           (snd a = NRF_SUCCESS \<longrightarrow> m_tx_index s' = m_tx_insert_index s')"
proof -
  let ?i = "unat (m_tx_insert_index s)"
  from api_step_enqueue_message [OF assms(1,3,4)] obtain m where
    m: "type m = WRITE_REQ" "conn_handle m = c_conn_handle c"
      "p_value (gattc_params (write_req m)) = Some ?i"
      "length (gattc_value (write_req m)) = WRITE_MESSAGE_LENGTH"
    and step: "api_step c a s = Inr (c, tx_buffer_process (snd a) (stored m s))"
    by blast
  let ?s' = "tx_buffer_process (snd a) (stored m s)"
  have i: "?i < length (m_tx_buffer s)"
    using assms(1) by (rule tx_inv_slot)
  have i8: "?i < 8"
    using assms(1) by (simp add: tx_inv_def TX_BUFFER_SIZE_eq)
  then have ne: "(m_tx_insert_index s + 1) AND TX_BUFFER_MASK \<noteq> m_tx_insert_index s"
    by (rule inc_mask_neq)
  have inv: "tx_inv ?s'"
    using assms(1) m(4) by (simp add: tx_inv_stored tx_inv_process)
  have call: "pending_call (stored m s) =
      Sd_ble_gattc_write (c_conn_handle c) (gattc_params (write_req m))
        (take (unat (len (gattc_params (write_req m)))) (gattc_value (write_req m)))"
    using assms(2) i m(1,2,3) by (simp add: pending_call_def value_at_def Let_def)
  have calls: "sd_calls ?s' = sd_calls s @ [(pending_call (stored m s), snd a)]"
    using assms(2) ne by (simp add: sd_calls_process)
  have drained: "m_tx_index ?s' = m_tx_insert_index ?s'" if "snd a = NRF_SUCCESS"
    using that assms(2) ne by (simp add: tx_buffer_process_def Let_def)
  have all: "api_step c a s = Inr (c, ?s') \<and> tx_inv ?s' \<and>
           sd_calls ?s' = sd_calls s @
             [(Sd_ble_gattc_write (c_conn_handle c) (gattc_params (write_req m))
                 (take (unat (len (gattc_params (write_req m)))) (gattc_value (write_req m))),
               snd a)] \<and>
           (snd a = NRF_SUCCESS \<longrightarrow> m_tx_index ?s' = m_tx_insert_index ?s')"
    using step inv calls call drained by simp
  show ?thesis
    by (rule exI [of _ m], rule exI [of _ "?s'"]) (rule all)
qed

lemma enqueues_not_response: "enqueues x \<Longrightarrow> x \<noteq> On_ble_evt BLE_GATTC_EVT_WRITE_RSP"
  by (cases x) simp_all

lemma abc_run:
  "(case run sample_client (abc_writes @ three_responses) initial_state of
      Inl f \<Rightarrow> False
    | Inr r \<Rightarrow> accepted (snd r) = 3 \<and>
        submissions (snd r) =
          [([0x41], NRF_SUCCESS), ([0x42], NRF_ERROR_BUSY), ([0x42], NRF_ERROR_BUSY),
           ([0x42], NRF_SUCCESS), ([0x43], NRF_SUCCESS)])"
  by code_simp

subsection \<open>Draining the buffer\<close>

text \<open>
  C6. Start from an empty buffer (\<^verbatim>\<open>m_tx_index == m_tx_insert_index\<close>) with a connection.
  Let N enqueue calls, N at most 8, be followed by any number of write-response events,
  the SoftDevice answering each submission as it likes. The run ends without a fault,
  and if the SoftDevice has accepted N submissions in all, the buffer is empty again:
  \<^verbatim>\<open>m_tx_index == m_tx_insert_index\<close>. The same holds when at least N write-response
  events follow and the SoftDevice accepts at each of them.
\<close>

theorem queue_returns_to_empty:
  assumes "tx_inv s" and "m_tx_index s = m_tx_insert_index s"
    and "c_conn_handle c \<noteq> BLE_CONN_HANDLE_INVALID"
    and "length enqs \<le> 8" and "\<forall>a\<in>set enqs. enqueues (fst a)"
    and "\<forall>a\<in>set rsps. fst a = On_ble_evt BLE_GATTC_EVT_WRITE_RSP"
  shows "\<exists>s'. run c (enqs @ rsps) s = Inr (c, s') \<and>
           (accepted s' = accepted s + length enqs \<longrightarrow>
              m_tx_index s' = m_tx_insert_index s') \<and>
           ((\<forall>a\<in>set rsps. snd a = NRF_SUCCESS) \<and> length enqs \<le> length rsps \<longrightarrow>
              m_tx_index s' = m_tx_insert_index s')"
proof -
  let ?i = "unat (m_tx_index s)"
  let ?n = "length enqs"
  from run_enqueues_indices [OF assms(1,3,5)] obtain s1 k where
    s1: "run c enqs s = Inr (c, s1)" "tx_inv s1" "k \<le> ?n" "accepted s1 = accepted s + k"
      "unat (m_tx_insert_index s1) = (?i + ?n) mod 8"
      "unat (m_tx_index s1) = (?i + k) mod 8"
    using assms(2) by auto
  from run_responses_indices [OF s1(2) assms(6)] obtain s' j where
    s': "run c rsps s1 = Inr (c, s')" "tx_inv s'" "accepted s' = accepted s1 + j"
      "m_tx_insert_index s' = m_tx_insert_index s1"
      "unat (m_tx_index s') = (unat (m_tx_index s1) + j) mod 8"
    by blast
  have run: "run c (enqs @ rsps) s = Inr (c, s')"
    using s1(1) s'(1) by (simp add: run_append)
  have counted: "m_tx_index s' = m_tx_insert_index s'" if "accepted s' = accepted s + ?n"
  proof -
    from that s1(4) s'(3) have "k + j = ?n" by simp
    then have "unat (m_tx_index s') = (?i + ?n) mod 8"
      using s1(6) s'(5) by (simp add: mod_simps add.assoc)
    then have "unat (m_tx_index s') = unat (m_tx_insert_index s')"
      using s1(5) s'(4) by simp
    then show ?thesis by (simp add: word_unat_eq_iff)
  qed
  have drained: "m_tx_index s' = m_tx_insert_index s'"
    if acc: "\<forall>a\<in>set rsps. snd a = NRF_SUCCESS" and enough: "?n \<le> length rsps"
  proof -
    obtain m where m: "?n = k + m"
      using s1(3) le_Suc_ex by blast
    define d where "d = (if m < 8 then m else 0)"
    have "m \<le> 8" using m assms(4) by simp
    then have "(k + m) mod 8 = (k + d) mod 8 \<and> d < 8 \<and> d \<le> ?n"
      using m by (auto simp add: d_def)
    then have d: "d < 8" "d \<le> ?n" "(?i + ?n) mod 8 = ((?i + k) mod 8 + d) mod 8"
      using m by (simp_all add: mod_simps add.assoc) (metis mod_add_right_eq)
    then have "ahead s1 d"
      using s1(5,6) by (simp add: ahead_def)
    moreover have "\<forall>a\<in>set rsps. a = (On_ble_evt BLE_GATTC_EVT_WRITE_RSP, NRF_SUCCESS)"
      using assms(6) acc by (auto intro: prod_eqI)
    ultimately obtain s'' where
      s'': "run c rsps s1 = Inr (c, s'')" "tx_inv s''" "ahead s'' (d - length rsps)"
      using run_accepting_responses [OF s1(2)] by blast
    have "d - length rsps = 0" using d(2) enough by simp
    with s'' s'(1) show ?thesis by (simp add: ahead_zero)
  qed
  show ?thesis using run counted drained by blast
qed

theorem queue_returns_to_empty_witness:
  "tx_inv initial_state \<and> m_tx_index initial_state = m_tx_insert_index initial_state \<and>
   c_conn_handle sample_client \<noteq> BLE_CONN_HANDLE_INVALID \<and> length abc_writes \<le> 8 \<and>
   list_all (\<lambda>a. enqueues (fst a)) abc_writes \<and>
   list_all (\<lambda>a. fst a = On_ble_evt BLE_GATTC_EVT_WRITE_RSP \<and> snd a = NRF_SUCCESS)
     three_responses \<and>
   length abc_writes \<le> length three_responses \<and>
   (\<exists>s'. run sample_client (abc_writes @ three_responses) initial_state
            = Inr (sample_client, s') \<and>
      accepted s' = accepted initial_state + length abc_writes \<and>
      m_tx_index s' = m_tx_insert_index s')"
proof -
  have c: "c_conn_handle sample_client \<noteq> BLE_CONN_HANDLE_INVALID"
    by (simp add: sample_client_def BLE_CONN_HANDLE_INVALID_def)
  have e: "m_tx_index initial_state = m_tx_insert_index initial_state"
    by (simp add: initial_indices)
  have n: "length abc_writes \<le> 8"
    by (simp add: abc_writes_def)
  have enq: "\<forall>a\<in>set abc_writes. enqueues (fst a)"
    by (simp add: abc_writes_def WRITE_MESSAGE_LENGTH_def)
  have rsp: "\<forall>a\<in>set three_responses. fst a = On_ble_evt BLE_GATTC_EVT_WRITE_RSP"
    by (simp add: three_responses_def)
  from queue_returns_to_empty [OF tx_inv_initial e c n enq rsp] obtain s' where
    s': "run sample_client (abc_writes @ three_responses) initial_state
           = Inr (sample_client, s')"
      "accepted s' = accepted initial_state + length abc_writes \<longrightarrow>
         m_tx_index s' = m_tx_insert_index s'"
    by blast
  have "accepted s' = 3"
    using abc_run s'(1) by simp
  moreover have "accepted initial_state = 0"
    by (simp add: accepted_def initial_state_def)
  moreover have "length abc_writes = 3"
    by (simp add: abc_writes_def)
  ultimately have a: "accepted s' = accepted initial_state + length abc_writes"
    by simp
  with s' have "\<exists>s'. run sample_client (abc_writes @ three_responses) initial_state
            = Inr (sample_client, s') \<and>
      accepted s' = accepted initial_state + length abc_writes \<and>
      m_tx_index s' = m_tx_insert_index s'"
    by blast
  moreover have "list_all (\<lambda>a. enqueues (fst a)) abc_writes"
    using enq by (simp add: list_all_iff)
  moreover have
    "list_all (\<lambda>a. fst a = On_ble_evt BLE_GATTC_EVT_WRITE_RSP \<and> snd a = NRF_SUCCESS)
       three_responses"
    by (simp add: three_responses_def list_all_iff)
  moreover have "length abc_writes \<le> length three_responses"
    by (simp add: abc_writes_def three_responses_def)
  ultimately show ?thesis
    using tx_inv_initial e c n by blast
qed

subsection \<open>Enqueueing into a full buffer\<close>

text \<open>
  C2. Neither \<^verbatim>\<open>ble_uart_c_write_string\<close> nor \<^verbatim>\<open>cccd_configure\<close> compares the two indices
  before it writes. Start from an empty buffer and let eight enqueue calls follow, none
  of whose submissions the SoftDevice accepts, so that eight entries are outstanding. The
  insert index has then come round to the dispatch index, and the slot there still holds
  the first of the eight entries, the oldest not yet accepted. The next enqueue, by either
  function, returns \<^verbatim>\<open>NRF_SUCCESS\<close> and writes its message into that slot.
\<close>

theorem enqueue_overwrites_oldest:
  assumes "tx_inv s" and "m_tx_index s = m_tx_insert_index s"
    and "c_conn_handle c \<noteq> BLE_CONN_HANDLE_INVALID"
    and "length as = 7"
    and "\<forall>a\<in>set (a1 # as). enqueues (fst a) \<and> snd a \<noteq> NRF_SUCCESS"
    and "unat n \<le> WRITE_MESSAGE_LENGTH" and "unat n \<le> length p"
  shows "\<exists>s1 s8 s9 s9'.
           api_step c a1 s = Inr (c, s1) \<and> run c as s1 = Inr (c, s8) \<and>
           accepted s8 = accepted s \<and>
           m_tx_index s8 = m_tx_index s \<and> m_tx_insert_index s8 = m_tx_index s8 \<and>
           m_tx_buffer s8 ! unat (m_tx_index s8) = m_tx_buffer s1 ! unat (m_tx_index s) \<and>
           ble_uart_c_write_string (Some c) p n e s8 = Inr (NRF_SUCCESS, s9) \<and>
           handle (gattc_params (write_req (m_tx_buffer s9 ! unat (m_tx_index s8))))
             = TX_handle c \<and>
           len (gattc_params (write_req (m_tx_buffer s9 ! unat (m_tx_index s8)))) = n \<and>
           take (unat n) (gattc_value (write_req (m_tx_buffer s9 ! unat (m_tx_index s8))))
             = take (unat n) p \<and>
           cccd_configure conn h en e s8 = (NRF_SUCCESS, s9') \<and>
           handle (gattc_params (write_req (m_tx_buffer s9' ! unat (m_tx_index s8)))) = h \<and>
           len (gattc_params (write_req (m_tx_buffer s9' ! unat (m_tx_index s8)))) = 2"
proof -
  let ?i = "unat (m_tx_index s)"
  have i8: "?i < 8"
    using assms(1) by (simp add: tx_inv_def TX_BUFFER_SIZE_eq)
  have ins: "unat (m_tx_insert_index s) = ?i"
    using assms(2) by simp
  from assms(5) have "\<forall>a\<in>set [a1]. enqueues (fst a) \<and> snd a \<noteq> NRF_SUCCESS" by simp
  from run_rejected_enqueues [OF assms(1,3) this] obtain s1 where
    s1: "api_step c a1 s = Inr (c, s1)" "tx_inv s1" "m_tx_index s1 = m_tx_index s"
      "accepted s1 = accepted s" "unat (m_tx_insert_index s1) = (?i + 1) mod 8"
    using ins by (auto split: sum.splits)
  from assms(5) have "\<forall>a\<in>set as. enqueues (fst a) \<and> snd a \<noteq> NRF_SUCCESS" by simp
  from run_rejected_enqueues [OF s1(2) assms(3) this] obtain s8 where
    s8: "run c as s1 = Inr (c, s8)" "tx_inv s8" "m_tx_index s8 = m_tx_index s1"
      "accepted s8 = accepted s1"
      "unat (m_tx_insert_index s8) = (unat (m_tx_insert_index s1) + length as) mod 8"
      "\<forall>j. (\<forall>k<length as. j \<noteq> (unat (m_tx_insert_index s1) + k) mod 8) \<longrightarrow>
            m_tx_buffer s8 ! j = m_tx_buffer s1 ! j"
    by blast
  have "unat (m_tx_insert_index s8) = ?i"
    using s8(5) s1(5) assms(4) i8 by (simp add: mod_simps)
  then have wrapped: "m_tx_insert_index s8 = m_tx_index s8"
    using s8(3) s1(3) by (simp add: word_unat_eq_iff)
  have "?i \<noteq> ((?i + 1) mod 8 + k) mod 8" if "k < 7" for k
  proof -
    have "(?i + Suc k) mod 8 \<noteq> ?i"
      using i8 that by (intro mod8_shift_neq) simp_all
    then show ?thesis by (simp add: mod_simps)
  qed
  then have kept: "m_tx_buffer s8 ! ?i = m_tx_buffer s1 ! ?i"
    using s8(6) s1(5) assms(4) by simp
  from write_string_slot [OF s8(2) assms(3,6,7), of e] obtain s9 where
    s9: "ble_uart_c_write_string (Some c) p n e s8 = Inr (NRF_SUCCESS, s9)"
      "handle (gattc_params (write_req (m_tx_buffer s9 ! unat (m_tx_insert_index s8))))
         = TX_handle c"
      "len (gattc_params (write_req (m_tx_buffer s9 ! unat (m_tx_insert_index s8)))) = n"
      "take (unat n) (gattc_value (write_req (m_tx_buffer s9 ! unat (m_tx_insert_index s8))))
         = take (unat n) p"
    by blast
  from cccd_configure_slot [OF s8(2), of conn h en e] obtain s9' where
    s9': "cccd_configure conn h en e s8 = (NRF_SUCCESS, s9')"
      "handle (gattc_params (write_req (m_tx_buffer s9' ! unat (m_tx_insert_index s8)))) = h"
      "len (gattc_params (write_req (m_tx_buffer s9' ! unat (m_tx_insert_index s8)))) = 2"
    by blast
  show ?thesis
    using s1(1,3,4) s8(1,3,4) wrapped kept s9 s9' by simp
qed

theorem enqueue_overwrites_oldest_witness:
  "tx_inv initial_state \<and> m_tx_index initial_state = m_tx_insert_index initial_state \<and>
   c_conn_handle sample_client \<noteq> BLE_CONN_HANDLE_INVALID \<and> length seven_rejected = 7 \<and>
   list_all (\<lambda>a. enqueues (fst a) \<and> snd a \<noteq> NRF_SUCCESS)
     ((Rx_notif_enable, NRF_ERROR_BUSY) # seven_rejected) \<and>
   unat (1 :: 16 word) \<le> WRITE_MESSAGE_LENGTH \<and> unat (1 :: 16 word) \<le> length [9 :: 8 word] \<and>
   (\<exists>s8 s9. run sample_client ((Rx_notif_enable, NRF_ERROR_BUSY) # seven_rejected)
               initial_state = Inr (sample_client, s8) \<and>
      accepted s8 = accepted initial_state \<and>
      m_tx_insert_index s8 = m_tx_index s8 \<and> m_tx_index s8 = 0 \<and>
      ble_uart_c_write_string (Some sample_client) [9] 1 NRF_SUCCESS s8
        = Inr (NRF_SUCCESS, s9) \<and>
      take 1 (gattc_value (write_req (m_tx_buffer s9 ! 0))) = [9])"
proof -
  have c: "c_conn_handle sample_client \<noteq> BLE_CONN_HANDLE_INVALID"
    by (simp add: sample_client_def BLE_CONN_HANDLE_INVALID_def)
  have e: "m_tx_index initial_state = m_tx_insert_index initial_state"
    by (simp add: initial_indices)
  have n: "length seven_rejected = 7"
    by (simp add: seven_rejected_def)
  have rej: "\<forall>a\<in>set ((Rx_notif_enable, NRF_ERROR_BUSY) # seven_rejected).
               enqueues (fst a) \<and> snd a \<noteq> NRF_SUCCESS"
    by (simp add: seven_rejected_def WRITE_MESSAGE_LENGTH_def NRF_ERROR_BUSY_def
        NRF_SUCCESS_def)
  have l1: "unat (1 :: 16 word) \<le> WRITE_MESSAGE_LENGTH"
    by (simp add: WRITE_MESSAGE_LENGTH_def)
  have l2: "unat (1 :: 16 word) \<le> length [9 :: 8 word]"
    by simp
  from enqueue_overwrites_oldest [OF tx_inv_initial e c n rej l1 l2, of NRF_SUCCESS]
  obtain s1 s8 s9 where
    r: "api_step sample_client (Rx_notif_enable, NRF_ERROR_BUSY) initial_state
          = Inr (sample_client, s1)"
      "run sample_client seven_rejected s1 = Inr (sample_client, s8)"
      "accepted s8 = accepted initial_state"
      "m_tx_index s8 = m_tx_index initial_state" "m_tx_insert_index s8 = m_tx_index s8"
      "ble_uart_c_write_string (Some sample_client) [9] 1 NRF_SUCCESS s8
         = Inr (NRF_SUCCESS, s9)"
      "take (unat (1 :: 16 word))
         (gattc_value (write_req (m_tx_buffer s9 ! unat (m_tx_index s8))))
         = take (unat (1 :: 16 word)) [9]"
    by blast
  have "run sample_client ((Rx_notif_enable, NRF_ERROR_BUSY) # seven_rejected) initial_state
          = Inr (sample_client, s8)"
    using r(1,2) by simp
  moreover have "m_tx_index s8 = 0"
    using r(4) by (simp add: initial_indices)
  moreover from this have "take 1 (gattc_value (write_req (m_tx_buffer s9 ! 0))) = [9]"
    using r(7) by simp
  ultimately have
    "\<exists>s8 s9. run sample_client ((Rx_notif_enable, NRF_ERROR_BUSY) # seven_rejected)
               initial_state = Inr (sample_client, s8) \<and>
      accepted s8 = accepted initial_state \<and>
      m_tx_insert_index s8 = m_tx_index s8 \<and> m_tx_index s8 = 0 \<and>
      ble_uart_c_write_string (Some sample_client) [9] 1 NRF_SUCCESS s8
        = Inr (NRF_SUCCESS, s9) \<and>
      take 1 (gattc_value (write_req (m_tx_buffer s9 ! 0))) = [9]"
    using r(3,5,6) by blast
  moreover have "list_all (\<lambda>a. enqueues (fst a) \<and> snd a \<noteq> NRF_SUCCESS)
     ((Rx_notif_enable, NRF_ERROR_BUSY) # seven_rejected)"
    using rej by (simp add: list_all_iff)
  ultimately show ?thesis
    using tx_inv_initial e c n l1 l2 by blast
qed

subsection \<open>Retrying a rejected submission\<close>

text \<open>
  C5. On a rejection \<^verbatim>\<open>tx_buffer_process\<close> leaves the dispatch index and the buffer as
  they are, and the next write-response event submits the same entry again
  (\<open>rejected_entry_retried_on_response\<close>). A rejected entry is not always submitted
  again on the next trigger, though, and entries are skipped: when the next trigger is the
  enqueue of an eighth pending entry, that enqueue moves the insert index onto the
  dispatch index and \<^verbatim>\<open>tx_buffer_process\<close> takes the buffer for empty. Seven writes are
  enqueued while the SoftDevice answers busy: the first is submitted and rejected seven
  times. The eighth write, the next trigger, submits nothing; neither does a
  write-response event after it. A ninth write, accepted, is submitted from the slot of
  the first. The first eight are never submitted again.
\<close>

theorem eighth_pending_entry_not_retried:
  "outcome (run sample_client seven_rejected initial_state)
     = Some (replicate 7 ([1], NRF_ERROR_BUSY), 7, 0) \<and>
   outcome (run sample_client (seven_rejected @ [(Write_string [8] 1, NRF_ERROR_BUSY)])
       initial_state)
     = Some (replicate 7 ([1], NRF_ERROR_BUSY), 0, 0) \<and>
   outcome (run sample_client
       (seven_rejected @ [(Write_string [8] 1, NRF_ERROR_BUSY),
          (On_ble_evt BLE_GATTC_EVT_WRITE_RSP, NRF_SUCCESS)]) initial_state)
     = Some (replicate 7 ([1], NRF_ERROR_BUSY), 0, 0) \<and>
   outcome (run sample_client
       (seven_rejected @ [(Write_string [8] 1, NRF_ERROR_BUSY),
          (On_ble_evt BLE_GATTC_EVT_WRITE_RSP, NRF_SUCCESS),
          (Write_string [9] 1, NRF_SUCCESS)]) initial_state)
     = Some (replicate 7 ([1], NRF_ERROR_BUSY) @ [([9], NRF_SUCCESS)], 1, 1)"
  by code_simp

subsection \<open>Requests in flight\<close>

text \<open>
  C1, as stated: over every run, no request is passed to the SoftDevice while an accepted
  one has not been followed by a write-response event. This fails. The module keeps no
  record of a request in flight: the second of two writes is submitted while the first,
  accepted, is unacknowledged, whether the SoftDevice then answers busy or accepts it too.
\<close>

theorem second_submission_while_unacknowledged:
  "\<not> one_in_flight False (run_obs sample_client two_writes initial_state) \<and>
   \<not> one_in_flight False (run_obs sample_client two_accepted_writes initial_state)"
  by code_simp

text \<open>
  C1, amended: every enqueue and every write-response event runs \<^verbatim>\<open>tx_buffer_process\<close>,
  and \<^verbatim>\<open>tx_buffer_process\<close> passes the entry at the dispatch index to the SoftDevice
  whenever the two indices differ, and nothing when they are equal; so every call of an
  entry point passes at most one request. It does so with no regard to an earlier
  accepted request: when an enqueue into an empty buffer is accepted and a second enqueue
  follows with no write response in between, the second request is passed to the
  SoftDevice as well, so the run breaks the rule of one request in flight.
\<close>

theorem one_submission_per_call:
  "sd_calls (tx_buffer_process e s) =
     (if m_tx_index s = m_tx_insert_index s then sd_calls s
      else sd_calls s @ [(pending_call s, e)]) \<and>
   api_step c (On_ble_evt BLE_GATTC_EVT_WRITE_RSP, e) s = Inr (c, tx_buffer_process e s) \<and>
   (tx_inv s \<and> c_conn_handle c \<noteq> BLE_CONN_HANDLE_INVALID \<and> enqueues (fst a) \<longrightarrow>
      (\<exists>m. type m = WRITE_REQ \<and> conn_handle m = c_conn_handle c \<and>
         p_value (gattc_params (write_req m)) = Some (unat (m_tx_insert_index s)) \<and>
         api_step c a s = Inr (c, tx_buffer_process (snd a) (stored m s)))) \<and>
   (api_step c a s = Inr (c', s') \<longrightarrow>
      sd_calls s' = sd_calls s \<or> (\<exists>call. sd_calls s' = sd_calls s @ [(call, snd a)])) \<and>
   (tx_inv s \<and> m_tx_index s = m_tx_insert_index s \<and>
    c_conn_handle c \<noteq> BLE_CONN_HANDLE_INVALID \<and>
    enqueues (fst a) \<and> snd a = NRF_SUCCESS \<and> enqueues (fst b) \<longrightarrow>
      (\<exists>(m1 :: tx_message_t) (m2 :: tx_message_t) s2.
         run c [a, b] s = Inr (c, s2) \<and>
         sd_calls s2 = sd_calls s @
           [(Sd_ble_gattc_write (c_conn_handle c) (gattc_params (write_req m1))
               (take (unat (len (gattc_params (write_req m1)))) (gattc_value (write_req m1))),
             NRF_SUCCESS),
            (Sd_ble_gattc_write (c_conn_handle c) (gattc_params (write_req m2))
               (take (unat (len (gattc_params (write_req m2)))) (gattc_value (write_req m2))),
             snd b)]) \<and>
      \<not> one_in_flight False (run_obs c [a, b] s))"
proof -
  have bound: "sd_calls s' = sd_calls s \<or> (\<exists>call. sd_calls s' = sd_calls s @ [(call, snd a)])"
    if "api_step c a s = Inr (c', s')"
  proof (cases "fst a")
    case (Write_string p n)
    with that show ?thesis
      by (auto simp add: api_step_def ble_uart_c_write_string_def Let_def sd_calls_process
          split: sum.splits if_splits)
  next
    case Rx_notif_enable
    with that show ?thesis
      by (auto simp add: api_step_def ble_uart_c_rx_notif_enable_def cccd_configure_def Let_def
          sd_calls_process split: if_splits)
  next
    case (On_ble_evt ev)
    with that show ?thesis
      by (cases ev)
        (auto simp add: api_step_def ble_uart_c_on_ble_evt_def on_write_rsp_def on_hvx_def
          sd_calls_process split: if_splits)
  qed
  have enq: "\<exists>m. type m = WRITE_REQ \<and> conn_handle m = c_conn_handle c \<and>
         p_value (gattc_params (write_req m)) = Some (unat (m_tx_insert_index s)) \<and>
         api_step c a s = Inr (c, tx_buffer_process (snd a) (stored m s))"
    if "tx_inv s" "c_conn_handle c \<noteq> BLE_CONN_HANDLE_INVALID" "enqueues (fst a)"
    using api_step_enqueue_message [OF that] by blast
  have two: "(\<exists>(m1 :: tx_message_t) (m2 :: tx_message_t) s2.
         run c [a, b] s = Inr (c, s2) \<and>
         sd_calls s2 = sd_calls s @
           [(Sd_ble_gattc_write (c_conn_handle c) (gattc_params (write_req m1))
               (take (unat (len (gattc_params (write_req m1)))) (gattc_value (write_req m1))),
             NRF_SUCCESS),
            (Sd_ble_gattc_write (c_conn_handle c) (gattc_params (write_req m2))
               (take (unat (len (gattc_params (write_req m2)))) (gattc_value (write_req m2))),
             snd b)]) \<and>
      \<not> one_in_flight False (run_obs c [a, b] s)"
    if h: "tx_inv s" "m_tx_index s = m_tx_insert_index s"
      "c_conn_handle c \<noteq> BLE_CONN_HANDLE_INVALID"
      "enqueues (fst a)" "snd a = NRF_SUCCESS" "enqueues (fst b)"
  proof -
    from enqueue_on_empty [OF h(1,2,3,4)] h(5) obtain m1 :: tx_message_t and s1 where
      s1: "api_step c a s = Inr (c, s1)" "tx_inv s1"
        "sd_calls s1 = sd_calls s @
           [(Sd_ble_gattc_write (c_conn_handle c) (gattc_params (write_req m1))
               (take (unat (len (gattc_params (write_req m1)))) (gattc_value (write_req m1))),
             NRF_SUCCESS)]"
        "m_tx_index s1 = m_tx_insert_index s1"
      by auto
    from enqueue_on_empty [OF s1(2,4) h(3,6)] obtain m2 :: tx_message_t and s2 where
      s2: "api_step c b s1 = Inr (c, s2)"
        "sd_calls s2 = sd_calls s1 @
           [(Sd_ble_gattc_write (c_conn_handle c) (gattc_params (write_req m2))
               (take (unat (len (gattc_params (write_req m2)))) (gattc_value (write_req m2))),
             snd b)]"
      by blast
    have run: "run c [a, b] s = Inr (c, s2)"
      using s1(1) s2(1) by simp
    have na: "fst a \<noteq> On_ble_evt BLE_GATTC_EVT_WRITE_RSP"
      and nb: "fst b \<noteq> On_ble_evt BLE_GATTC_EVT_WRITE_RSP"
      using h(4,6) by (simp_all add: enqueues_not_response)
    have obs: "\<not> one_in_flight False (run_obs c [a, b] s)"
      using s1(1,3) s2 na nb by (simp add: step_obs_def)
    have both: "sd_calls s2 = sd_calls s @
           [(Sd_ble_gattc_write (c_conn_handle c) (gattc_params (write_req m1))
               (take (unat (len (gattc_params (write_req m1)))) (gattc_value (write_req m1))),
             NRF_SUCCESS),
            (Sd_ble_gattc_write (c_conn_handle c) (gattc_params (write_req m2))
               (take (unat (len (gattc_params (write_req m2)))) (gattc_value (write_req m2))),
             snd b)]"
      using s1(3) s2(2) by simp
    have "\<exists>(m1 :: tx_message_t) (m2 :: tx_message_t) s2.
         run c [a, b] s = Inr (c, s2) \<and>
         sd_calls s2 = sd_calls s @
           [(Sd_ble_gattc_write (c_conn_handle c) (gattc_params (write_req m1))
               (take (unat (len (gattc_params (write_req m1)))) (gattc_value (write_req m1))),
             NRF_SUCCESS),
            (Sd_ble_gattc_write (c_conn_handle c) (gattc_params (write_req m2))
               (take (unat (len (gattc_params (write_req m2)))) (gattc_value (write_req m2))),
             snd b)]"
      by (rule exI [of _ m1], rule exI [of _ m2], rule exI [of _ s2]) (intro conjI run both)
    with obs show ?thesis by simp
  qed
  show ?thesis
    using bound enq two by (simp add: sd_calls_process api_step_write_rsp)
qed

theorem one_submission_per_call_witness:
  "tx_inv initial_state \<and> m_tx_index initial_state = m_tx_insert_index initial_state \<and>
   c_conn_handle sample_client \<noteq> BLE_CONN_HANDLE_INVALID \<and>
   enqueues Rx_notif_enable \<and> enqueues (Write_string [0x41] 1) \<and>
   (\<exists>s'. api_step sample_client (Rx_notif_enable, NRF_SUCCESS) initial_state
            = Inr (sample_client, s') \<and>
      (sd_calls s' = sd_calls initial_state \<or>
       (\<exists>call. sd_calls s' = sd_calls initial_state @ [(call, NRF_SUCCESS)]))) \<and>
   (\<exists>s2. run sample_client
            [(Rx_notif_enable, NRF_SUCCESS), (Write_string [0x41] 1, NRF_SUCCESS)]
            initial_state = Inr (sample_client, s2) \<and>
      map snd (sd_calls s2) = [NRF_SUCCESS, NRF_SUCCESS]) \<and>
   \<not> one_in_flight False
      (run_obs sample_client
         [(Rx_notif_enable, NRF_SUCCESS), (Write_string [0x41] 1, NRF_SUCCESS)]
         initial_state)"
proof -
  let ?a = "(Rx_notif_enable, NRF_SUCCESS)"
  let ?b = "(Write_string [0x41] 1, NRF_SUCCESS)"
  have c: "c_conn_handle sample_client \<noteq> BLE_CONN_HANDLE_INVALID"
    by (simp add: sample_client_def BLE_CONN_HANDLE_INVALID_def)
  have e: "m_tx_index initial_state = m_tx_insert_index initial_state"
    by (simp add: initial_indices)
  have ea: "enqueues Rx_notif_enable" and eb: "enqueues (Write_string [0x41] 1)"
    by (simp_all add: WRITE_MESSAGE_LENGTH_def)
  have nil: "sd_calls initial_state = []"
    by (simp add: initial_state_def)
  note t = one_submission_per_call
    [where e = NRF_SUCCESS and s = initial_state and c = sample_client and a = ?a
       and c' = sample_client and s' = initial_state and b = ?b]
  from t [THEN conjunct2, THEN conjunct2, THEN conjunct1] tx_inv_initial c ea
  have "\<exists>m. api_step sample_client ?a initial_state
             = Inr (sample_client, tx_buffer_process NRF_SUCCESS (stored m initial_state))"
    by auto
  then obtain m where
    step: "api_step sample_client ?a initial_state
             = Inr (sample_client, tx_buffer_process NRF_SUCCESS (stored m initial_state))"
    by (rule exE)
  let ?s' = "tx_buffer_process NRF_SUCCESS (stored m initial_state)"
  note u = one_submission_per_call
    [where e = NRF_SUCCESS and s = initial_state and c = sample_client and a = ?a
       and c' = sample_client and s' = ?s' and b = ?b]
  from u [THEN conjunct2, THEN conjunct2, THEN conjunct2, THEN conjunct1] step
  have one: "sd_calls ?s' = sd_calls initial_state \<or>
      (\<exists>call. sd_calls ?s' = sd_calls initial_state @ [(call, NRF_SUCCESS)])"
    by simp
  have first: "\<exists>s'. api_step sample_client ?a initial_state = Inr (sample_client, s') \<and>
      (sd_calls s' = sd_calls initial_state \<or>
       (\<exists>call. sd_calls s' = sd_calls initial_state @ [(call, NRF_SUCCESS)]))"
    by (rule exI [of _ "?s'"]) (intro conjI step one)
  from t [THEN conjunct2, THEN conjunct2, THEN conjunct2, THEN conjunct2]
    tx_inv_initial e c ea eb
  have two: "(\<exists>s2. run sample_client [?a, ?b] initial_state = Inr (sample_client, s2) \<and>
      map snd (sd_calls s2) = [NRF_SUCCESS, NRF_SUCCESS]) \<and>
    \<not> one_in_flight False (run_obs sample_client [?a, ?b] initial_state)"
    by (auto simp add: nil)
  show ?thesis
    using tx_inv_initial e c ea eb first two by (intro conjI) simp_all
qed

end
